theory Spec2Isabelle
  imports Main
begin

section \<open>FBX batch conditioning and partition export (fbx\_batch.py)\<close>

text \<open>
  The module drives a Maya session: it asks the scene for names, relatives and skin
  influences, deletes nodes, and hands selections to the FBX plug-in. The functions of
  the module are embedded below one by one, with the source's names (a leading
  underscore is dropped). Whatever Maya answers is a parameter: a record of query
  functions for the read-only calls, a forest of DAG nodes for the scene that is
  reloaded and pruned, and a record of exporter calls. Python exceptions are values of
  the type \<open>error\<close>; a function of the module that may loop for ever returns \<open>None\<close>
  when it does.
\<close>

subsection \<open>Exceptions and results\<close>

datatype error =
    TypeError
  | ValueError
  | IndexError
  | AttributeError
  | RuntimeError string
  | Exception string

text \<open>\<open>None\<close>: the call does not return; \<open>Some (Inl e)\<close>: it raises \<open>e\<close>;
  \<open>Some (Inr v)\<close>: it returns \<open>v\<close>.\<close>

type_synonym 'a res = "(error + 'a) option"

definition bind_res :: "'a res \<Rightarrow> ('a \<Rightarrow> 'b res) \<Rightarrow> 'b res" where
  "bind_res m f =
     (case m of None \<Rightarrow> None | Some (Inl e) \<Rightarrow> Some (Inl e) | Some (Inr a) \<Rightarrow> f a)"

subsection \<open>The scene queries the module makes\<close>

text \<open>
  One field per query of the source, named after the call:
  \<^item> \<open>MSelectionList_add name\<close>: the full path names of the DAG paths held by a fresh
    selection list after \<open>sel_list.add(name)\<close>, or the exception \<open>add\<close> raises;
  \<^item> \<open>listRelatives_ad p\<close>: \<open>cmds.listRelatives(p, ad=True, fullPath=True)\<close>
    (\<open>None\<close> is Python's \<open>None\<close>);
  \<^item> \<open>ls_joint xs\<close>: \<open>cmds.ls(xs, long=True, type="joint")\<close>, or the exception it
    raises; \<open>xs\<close> is what \<open>listRelatives\<close> returned, \<open>None\<close> included;
  \<^item> \<open>listRelatives_p p\<close>: \<open>cmds.listRelatives(p, p=True, pa=True, fullPath=True)\<close>;
  \<^item> \<open>listRelatives_parent_joint n\<close>: \<open>cmds.listRelatives(n, parent=True, type="joint")\<close>;
  \<^item> \<open>skinCluster_influence mesh\<close>: \<open>cmds.skinCluster(mesh, query=True, influence=True)\<close>,
    or the exception it raises.
\<close>

record host =
  MSelectionList_add :: "string \<Rightarrow> error + string list"
  listRelatives_ad :: "string \<Rightarrow> string list option"
  ls_joint :: "string list option \<Rightarrow> error + string list"
  listRelatives_p :: "string \<Rightarrow> string list option"
  listRelatives_parent_joint :: "string \<Rightarrow> string list option"
  skinCluster_influence :: "string \<Rightarrow> error + string list option"

subsection \<open>\<open>_get_joint_list\<close> and \<open>_get_root_joint\<close>\<close>

text \<open>The message of the exception raised at line 543.\<close>

definition found_root_msg :: "string \<Rightarrow> string" where
  "found_root_msg start_joint =
     ''Found root joint while searching for start joint '' @ [CHR 0x22] @ start_joint @ [CHR 0x22]"

text \<open>The \<open>while\<close> loop of lines 540-548. \<open>if not parent_jnt\<close> holds for \<open>None\<close> and
  for the empty list.\<close>

partial_function (option) joint_list_loop ::
  "host \<Rightarrow> string \<Rightarrow> string list \<Rightarrow> (error + string list) option" where
  "joint_list_loop h start_joint joint_list =
     (if last joint_list \<noteq> start_joint then
        (case listRelatives_p h (last joint_list) of
           None \<Rightarrow> Some (Inl (Exception (found_root_msg start_joint)))
         | Some [] \<Rightarrow> Some (Inl (Exception (found_root_msg start_joint)))
         | Some (parent_jnt # _) \<Rightarrow> joint_list_loop h start_joint (joint_list @ [parent_jnt]))
      else Some (Inr joint_list))"

text \<open>Lines 501-522: \<open>sel_list.add(name)\<close>, \<open>sel_list.getDagPath(0)\<close>,
  \<open>dag_path.fullPathName()\<close> inside \<open>try\<close>. The bare \<open>except\<close> catches what \<open>add\<close>
  raises as well as the failure of \<open>getDagPath(0)\<close> on an empty list; \<open>None\<close> is that
  branch.\<close>

definition full_path_of :: "host \<Rightarrow> string \<Rightarrow> string option" where
  "full_path_of h name =
     (case MSelectionList_add h name of
        Inl e \<Rightarrow> None
      | Inr [] \<Rightarrow> None
      | Inr (full_path # _) \<Rightarrow> Some full_path)"

definition get_joint_list :: "host \<Rightarrow> string \<Rightarrow> string \<Rightarrow> string list res" where
  "get_joint_list h start_joint end_joint =
     (case full_path_of h start_joint of
        None \<Rightarrow> Some (Inr [])
      | Some start_full \<Rightarrow>
          (case full_path_of h end_joint of
             None \<Rightarrow> Some (Inr [])
           | Some end_full \<Rightarrow>
               if start_full = end_full then Some (Inr [start_full])
               else
                 (case ls_joint h (listRelatives_ad h start_full) of
                    Inl e \<Rightarrow> Some (Inl e)
                  | Inr descendant_list \<Rightarrow>
                      if count_list descendant_list end_full = 0 then Some (Inr [])
                      else bind_res (joint_list_loop h start_full [end_full])
                             (\<lambda>joint_list. Some (Inr (rev joint_list))))))"

text \<open>Lines 565-568. \<open>parent[0] if parent else None\<close>, then \<open>if parent\<close> once more on the
  name itself (an empty name is false).\<close>

partial_function (option) get_root_joint :: "host \<Rightarrow> string \<Rightarrow> string option" where
  "get_root_joint h start_joint =
     (case (case listRelatives_parent_joint h start_joint of
              None \<Rightarrow> None
            | Some [] \<Rightarrow> None
            | Some (p # _) \<Rightarrow> Some p) of
        None \<Rightarrow> Some start_joint
      | Some parent \<Rightarrow> if parent \<noteq> [] then get_root_joint h parent else Some start_joint)"

subsection \<open>The planning half of \<open>_export_skeletal_mesh_partitions\<close> (lines 143-196)\<close>

text \<open>A partition's entry of \<open>export_data["partitions"]\<close>: \<open>data.get("enabled", False)\<close>
  and \<open>data.get("skeletal_meshes", None)\<close>.\<close>

record partition =
  enabled :: bool
  skeletal_meshes :: "string list option"

text \<open>An \<open>OrderedDict\<close> is an association list in insertion order.\<close>

fun setdefault :: "('k \<times> 'v) list \<Rightarrow> 'k \<Rightarrow> 'v \<Rightarrow> ('k \<times> 'v) list" where
  "setdefault [] k v = [(k, v)]"
| "setdefault ((k', v') # d) k v =
     (if k' = k then (k', v') # d else (k', v') # setdefault d k v)"

fun map_entry :: "'k \<Rightarrow> ('v \<Rightarrow> 'v) \<Rightarrow> ('k \<times> 'v) list \<Rightarrow> ('k \<times> 'v) list" where
  "map_entry k f [] = []"
| "map_entry k f ((k', v') # d) =
     (if k' = k then (k', f v') # d else (k', v') # map_entry k f d)"

text \<open>Lines 169-171: append each joint of the chain that the list does not hold yet.\<close>

fun append_missing :: "string list \<Rightarrow> string list \<Rightarrow> string list" where
  "append_missing acc [] = acc"
| "append_missing acc (hierarchy_jnt # rest) =
     append_missing (if hierarchy_jnt \<in> set acc then acc else acc @ [hierarchy_jnt]) rest"

text \<open>Lines 167-171, the loop over the influences of one mesh for one root.\<close>

fun influence_loop ::
  "host \<Rightarrow> string \<Rightarrow> string list \<Rightarrow> (string \<times> string list) list
   \<Rightarrow> (string \<times> string list) list res" where
  "influence_loop h jnt_root [] joint_hierarchy = Some (Inr joint_hierarchy)"
| "influence_loop h jnt_root (inf_jnt # infs) joint_hierarchy =
     bind_res (get_joint_list h jnt_root inf_jnt)
       (\<lambda>jnt_hierarchy.
          influence_loop h jnt_root infs
            (map_entry jnt_root (\<lambda>acc. append_missing acc jnt_hierarchy) joint_hierarchy))"

text \<open>Lines 164-171, the loop over the candidate roots. Iterating \<open>influences\<close> when the
  skin query gave \<open>None\<close> raises \<open>TypeError\<close>.\<close>

fun root_loop ::
  "host \<Rightarrow> string list option \<Rightarrow> string list \<Rightarrow> (string \<times> string list) list
   \<Rightarrow> (string \<times> string list) list res" where
  "root_loop h influences [] joint_hierarchy = Some (Inr joint_hierarchy)"
| "root_loop h influences (jnt_root # roots) joint_hierarchy =
     (case influences of
        None \<Rightarrow> Some (Inl TypeError)
      | Some infs \<Rightarrow>
          bind_res (influence_loop h jnt_root infs (setdefault joint_hierarchy jnt_root []))
            (\<lambda>joint_hierarchy'. root_loop h influences roots joint_hierarchy'))"

text \<open>Lines 159-171, the loop over the meshes of the partition.\<close>

fun mesh_loop ::
  "host \<Rightarrow> string list \<Rightarrow> string list \<Rightarrow> (string \<times> string list) list
   \<Rightarrow> (string \<times> string list) list res" where
  "mesh_loop h jnt_roots [] joint_hierarchy = Some (Inr joint_hierarchy)"
| "mesh_loop h jnt_roots (mesh # meshes) joint_hierarchy =
     (case skinCluster_influence h mesh of
        Inl e \<Rightarrow> Some (Inl e)
      | Inr influences \<Rightarrow>
          bind_res (root_loop h influences jnt_roots joint_hierarchy)
            (\<lambda>joint_hierarchy'. mesh_loop h jnt_roots meshes joint_hierarchy'))"

text \<open>Lines 176-186: the shortest non-empty hierarchy, with the root it belongs to. The
  second argument is \<open>short_hierarchy\<close> together with \<open>partitions_data[name]["root"]\<close>.\<close>

fun shortest_loop ::
  "(string \<times> string list) list \<Rightarrow> (string \<times> string list) option
   \<Rightarrow> (string \<times> string list) option" where
  "shortest_loop [] short = short"
| "shortest_loop ((root_jnt, joint_hierarchy) # rest) short =
     (if length joint_hierarchy \<le> 0 then shortest_loop rest short
      else
        (case short of
           None \<Rightarrow> shortest_loop rest (Some (root_jnt, joint_hierarchy))
         | Some (r, short_hierarchy) \<Rightarrow>
             if length short_hierarchy > length joint_hierarchy
             then shortest_loop rest (Some (root_jnt, joint_hierarchy))
             else shortest_loop rest short))"

text \<open>The entry of \<open>partitions_data\<close>: \<open>None\<close> is the empty dictionary left by
  \<open>setdefault\<close> when line 188 skips the partition.\<close>

record plan =
  root :: string
  hierarchy :: "string list"

text \<open>Lines 190-196.\<close>

definition extend_to_root :: "host \<Rightarrow> string list \<Rightarrow> string list res" where
  "extend_to_root h short_hierarchy =
     (case short_hierarchy of
        [] \<Rightarrow> Some (Inl IndexError)
      | first # _ \<Rightarrow>
          (case get_root_joint h first of
             None \<Rightarrow> None
           | Some root_jnt \<Rightarrow>
               if root_jnt \<notin> set short_hierarchy
               then bind_res (get_joint_list h root_jnt first)
                      (\<lambda>parent_hierarchy. Some (Inr (parent_hierarchy @ short_hierarchy)))
               else Some (Inr short_hierarchy)))"

text \<open>Lines 156-196 for one enabled partition. \<open>for mesh in meshes\<close> raises \<open>TypeError\<close>
  when \<open>meshes\<close> is \<open>None\<close>.\<close>

definition plan_partition :: "host \<Rightarrow> string list \<Rightarrow> partition \<Rightarrow> plan option res" where
  "plan_partition h jnt_roots data =
     (case skeletal_meshes data of
        None \<Rightarrow> Some (Inl TypeError)
      | Some meshes \<Rightarrow>
          bind_res (mesh_loop h jnt_roots meshes [])
            (\<lambda>joint_hierarchy.
               case shortest_loop joint_hierarchy None of
                 None \<Rightarrow> Some (Inr None)
               | Some (root_jnt, short_hierarchy) \<Rightarrow>
                   bind_res (extend_to_root h short_hierarchy)
                     (\<lambda>final. Some (Inr (Some \<lparr>root = root_jnt, hierarchy = final\<rparr>)))))"

text \<open>Lines 147-196, the loop over \<open>partitions.items()\<close>. A disabled partition gets no
  entry; the names are the keys of a dictionary, so each entry is new.\<close>

fun partition_loop ::
  "host \<Rightarrow> string list \<Rightarrow> (string \<times> partition) list \<Rightarrow> (string \<times> plan option) list
   \<Rightarrow> (string \<times> plan option) list res" where
  "partition_loop h jnt_roots [] partitions_data = Some (Inr partitions_data)"
| "partition_loop h jnt_roots ((partition_name, data) # rest) partitions_data =
     (if \<not> enabled data then partition_loop h jnt_roots rest partitions_data
      else
        bind_res (plan_partition h jnt_roots data)
          (\<lambda>entry. partition_loop h jnt_roots rest
                      (setdefault partitions_data partition_name entry)))"

subsection \<open>The scene: a forest of DAG nodes\<close>

text \<open>
  A node has a full path name, a kind and an ordered list of children; the scene is the
  list of the children of the world. Maya identifies a DAG node by its full path name,
  and so do the lists the module compares names with.
\<close>

datatype kind = Transform | Joint | Mesh | Other

datatype dag = Node (node_path: string) (node_kind: kind) (node_children: "dag list")

text \<open>Every node of the forest, parents before children (depth first).\<close>

function nodes_of :: "dag list \<Rightarrow> dag list" where
  "nodes_of [] = []"
| "nodes_of (Node p k cs # ns) = Node p k cs # nodes_of cs @ nodes_of ns"
  by pat_completeness auto
termination
  by (relation "measure (size_list size)") auto

definition paths :: "dag list \<Rightarrow> string list" where
  "paths sc = map node_path (nodes_of sc)"

text \<open>\<open>om.MItDag(om.MItDag.kBreadthFirst)\<close>: the nodes level by level; the argument is
  the queue of nodes still to visit.\<close>

function breadth_first :: "dag list \<Rightarrow> dag list" where
  "breadth_first [] = []"
| "breadth_first (Node p k cs # queue) = Node p k cs # breadth_first (queue @ cs)"
  by pat_completeness auto
termination
  by (relation "measure (size_list size)") auto

text \<open>\<open>_get_all_mesh_dag_objects\<close> and \<open>_get_all_joint_dag_objects\<close> (lines 571-613):
  the full path names of the nodes of one kind, in breadth-first order.\<close>

definition get_all_mesh_dag_objects :: "dag list \<Rightarrow> string list" where
  "get_all_mesh_dag_objects sc =
     map node_path (filter (\<lambda>n. node_kind n = Mesh) (breadth_first sc))"

definition get_all_joint_dag_objects :: "dag list \<Rightarrow> string list" where
  "get_all_joint_dag_objects sc =
     map node_path (filter (\<lambda>n. node_kind n = Joint) (breadth_first sc))"

text \<open>Deleting a node removes it together with its subtree.\<close>

function remove_subtrees :: "string \<Rightarrow> dag list \<Rightarrow> dag list" where
  "remove_subtrees name [] = []"
| "remove_subtrees name (Node p k cs # ns) =
     (if p = name then remove_subtrees name ns
      else Node p k (remove_subtrees name cs) # remove_subtrees name ns)"
  by pat_completeness auto
termination
  by (relation "measure (\<lambda>(name, ns). size_list size ns)") auto

text \<open>\<open>cmds.delete(name)\<close>: \<open>ValueError\<close> (no object matches the name) when the scene
  has no such node.\<close>

definition cmds_delete :: "string \<Rightarrow> dag list \<Rightarrow> error + dag list" where
  "cmds_delete name sc =
     (if name \<in> set (paths sc) then Inr (remove_subtrees name sc) else Inl ValueError)"

subsection \<open>The executing half of \<open>_export_skeletal_mesh_partitions\<close> (lines 198-266)\<close>

text \<open>
  The calls into \<open>mgear.core.pyFBX\<close>, and what the session answers for the four calls
  whose outcome the module cannot compute: opening the conditioned scene file
  (\<open>cmds.file(scene_path, open=True, force=True, save=False)\<close>), a plug-in call on the
  current scene and selection (\<open>Some e\<close>: it raises \<open>e\<close>), \<open>traceback.format_exc()\<close>
  for a caught exception, and \<open>cmds.error(message)\<close> (\<open>Some e\<close>: it raises \<open>e\<close>, as
  Maya's \<open>error\<close> command does in Python, where it raises \<open>RuntimeError\<close>; \<open>None\<close>:
  it returns).
\<close>

datatype pfbx_call =
    FBXResetExport
  | FBXLoadExportPresetFile string
  | FBXExportUpAxis string
  | FBXExportFileVersion string
  | FBXExportInAscii bool
  | FBXExport string

record exporter =
  cmds_file_open :: "string \<Rightarrow> error + dag list"
  pfbx :: "pfbx_call \<Rightarrow> dag list \<Rightarrow> string list \<Rightarrow> error option"
  format_exc :: "error \<Rightarrow> string"
  cmds_error :: "string \<Rightarrow> error option"

text \<open>\<open>export_data\<close>, by its keys; an absent key is \<open>None\<close> (an absent
  \<open>partitions\<close> is the empty dictionary, absent \<open>file_path\<close> and \<open>file_name\<close> the
  empty string).\<close>

record export_data =
  file_path :: string
  file_name :: string
  partitions :: "(string \<times> partition) list"
  preset_path :: "string option"
  up_axis :: "string option"
  fbx_version :: "string option"
  file_type :: "string option"

text \<open>The Maya session: the open scene, the selection, and the files \<open>FBXExport\<close> has
  written (path, selection and scene at the call).\<close>

record session =
  scene :: "dag list"
  selection :: "string list"
  exported :: "(string \<times> string list \<times> dag list) list"

text \<open>Lines 219-221 and 225-227: delete every listed node that is not in \<open>keep\<close>. A
  membership test in \<open>None\<close> raises \<open>TypeError\<close>. The scene keeps the deletions made
  before an exception.\<close>

fun delete_loop :: "string list option \<Rightarrow> string list \<Rightarrow> dag list \<Rightarrow> error option \<times> dag list" where
  "delete_loop keep [] sc = (None, sc)"
| "delete_loop keep (name # rest) sc =
     (case keep of
        None \<Rightarrow> (Some TypeError, sc)
      | Some members \<Rightarrow>
          if name \<notin> set members then
            (case cmds_delete name sc of
               Inl e \<Rightarrow> (Some e, sc)
             | Inr sc' \<Rightarrow> delete_loop keep rest sc')
          else delete_loop keep rest sc)"

text \<open>Lines 217-227 on the freshly opened scene.\<close>

definition prune_scene ::
  "string list option \<Rightarrow> string list \<Rightarrow> dag list \<Rightarrow> error option \<times> dag list" where
  "prune_scene partition_meshes partition_joints sc =
     (case delete_loop partition_meshes (get_all_mesh_dag_objects sc) sc of
        (Some e, sc1) \<Rightarrow> (Some e, sc1)
      | (None, sc1) \<Rightarrow>
          delete_loop (Some partition_joints) (rev (get_all_joint_dag_objects sc1)) sc1)"

text \<open>\<open>str.lower\<close> on ASCII letters, \<open>os.path.join\<close> of two parts (POSIX), and the
  version string of lines 249-251.\<close>

definition lower_char :: "char \<Rightarrow> char" where
  "lower_char c =
     (if (65::nat) \<le> of_char c \<and> of_char c \<le> (90::nat) then char_of (of_char c + (32::nat)) else c)"

definition os_path_join :: "string \<Rightarrow> string \<Rightarrow> string" where
  "os_path_join a b =
     (if b \<noteq> [] \<and> hd b = CHR ''/'' then b
      else if a = [] \<or> last a = CHR ''/'' then a @ b
      else a @ ''/'' @ b)"

definition fbx_version_str :: "string \<Rightarrow> string" where
  "fbx_version_str v =
     filter (\<lambda>c. c \<noteq> CHR '' '') (takeWhile (\<lambda>c. c \<noteq> CHR ''/'') v) @ ''00''"

text \<open>Lines 240-254: the plug-in calls that configure the export.\<close>

definition export_settings :: "export_data \<Rightarrow> pfbx_call list" where
  "export_settings ed =
     [FBXResetExport]
     @ (case preset_path ed of None \<Rightarrow> [] | Some f \<Rightarrow> [FBXLoadExportPresetFile f])
     @ (case up_axis ed of None \<Rightarrow> [] | Some a \<Rightarrow> [FBXExportUpAxis a])
     @ (case fbx_version ed of None \<Rightarrow> [] | Some v \<Rightarrow> [FBXExportFileVersion (fbx_version_str v)])
     @ (if map lower_char (case file_type ed of None \<Rightarrow> ''binary'' | Some t \<Rightarrow> t) = ''ascii''
        then [FBXExportInAscii True] else [])"

fun run_pfbx :: "exporter \<Rightarrow> pfbx_call list \<Rightarrow> dag list \<Rightarrow> string list \<Rightarrow> error option" where
  "run_pfbx x [] sc sel = None"
| "run_pfbx x (c # cs) sc sel =
     (case pfbx x c sc sel of Some e \<Rightarrow> Some e | None \<Rightarrow> run_pfbx x cs sc sel)"

text \<open>\<open>cmds.select(names)\<close>: \<open>ValueError\<close> when a name matches no node of the scene.\<close>

definition cmds_select :: "string list \<Rightarrow> session \<Rightarrow> error + session" where
  "cmds_select names st =
     (if set names \<subseteq> set (paths (scene st)) then Inr (st\<lparr>selection := names\<rparr>)
      else Inl ValueError)"

text \<open>The body of the \<open>try\<close> statement, lines 235-258: the exception it ends with, if
  any, and the session it leaves.\<close>

definition try_export ::
  "exporter \<Rightarrow> export_data \<Rightarrow> string list \<Rightarrow> string list option \<Rightarrow> string \<Rightarrow> session
   \<Rightarrow> error option \<times> session" where
  "try_export x ed partition_joints partition_meshes export_path st =
     (case run_pfbx x (export_settings ed) (scene st) (selection st) of
        Some e \<Rightarrow> (Some e, st)
      | None \<Rightarrow>
          (case partition_meshes of
             None \<Rightarrow> (Some TypeError, st\<lparr>selection := []\<rparr>)
           | Some meshes \<Rightarrow>
               (case cmds_select (partition_joints @ meshes) (st\<lparr>selection := []\<rparr>) of
                  Inl e \<Rightarrow> (Some e, st\<lparr>selection := []\<rparr>)
                | Inr st' \<Rightarrow>
                    (case pfbx x (FBXExport export_path) (scene st') (selection st') of
                       Some e \<Rightarrow> (Some e, st')
                     | None \<Rightarrow>
                         (None, st'\<lparr>exported :=
                            exported st' @ [(export_path, selection st', scene st')]\<rparr>)))))"

definition export_failed_msg :: "exporter \<Rightarrow> string \<Rightarrow> error \<Rightarrow> string" where
  "export_failed_msg x partition_name e =
     ''Something wrong happened while export Partition '' @ partition_name @ '': ''
       @ format_exc x e"

text \<open>Lines 205-265 for one entry of \<open>partitions_data\<close>. An entry without data is
  skipped; \<open>partitions.get(name)\<close> is \<open>None\<close> for a name that is no key, and
  \<open>None.get\<close> raises \<open>AttributeError\<close>.\<close>

definition execute_partition ::
  "exporter \<Rightarrow> export_data \<Rightarrow> string \<Rightarrow> string \<times> plan option \<Rightarrow> session
   \<Rightarrow> error option \<times> session" where
  "execute_partition x ed scene_path entry st =
     (case snd entry of
        None \<Rightarrow> (None, st)
      | Some partition_data \<Rightarrow>
          (case map_of (partitions ed) (fst entry) of
             None \<Rightarrow> (Some AttributeError, st)
           | Some data \<Rightarrow>
               (case cmds_file_open x scene_path of
                  Inl e \<Rightarrow> (Some e, st)
                | Inr sc \<Rightarrow>
                    (case prune_scene (skeletal_meshes data) (hierarchy partition_data) sc of
                       (Some e, sc') \<Rightarrow> (Some e, st\<lparr>scene := sc', selection := []\<rparr>)
                     | (None, sc') \<Rightarrow>
                         (case try_export x ed (hierarchy partition_data) (skeletal_meshes data)
                                 (os_path_join (file_path ed)
                                    (file_name ed @ ''_'' @ fst entry @ ''.fbx''))
                                 (st\<lparr>scene := sc', selection := []\<rparr>) of
                            (None, st') \<Rightarrow> (None, st')
                          | (Some e, st') \<Rightarrow>
                              (cmds_error x (export_failed_msg x (fst entry) e), st'))))))"

text \<open>Lines 204-265, the loop over \<open>partitions_data.items()\<close>.\<close>

fun execute_loop ::
  "exporter \<Rightarrow> export_data \<Rightarrow> string \<Rightarrow> (string \<times> plan option) list \<Rightarrow> session
   \<Rightarrow> error option \<times> session" where
  "execute_loop x ed scene_path [] st = (None, st)"
| "execute_loop x ed scene_path (entry # rest) st =
     (case execute_partition x ed scene_path entry st of
        (Some e, st') \<Rightarrow> (Some e, st')
      | (None, st') \<Rightarrow> execute_loop x ed scene_path rest st')"

text \<open>\<open>_export_skeletal_mesh_partitions(jnt_roots, export_data, scene_path)\<close>: what it
  returns or raises, and the session it leaves.\<close>

definition export_skeletal_mesh_partitions ::
  "host \<Rightarrow> exporter \<Rightarrow> string list \<Rightarrow> export_data \<Rightarrow> string \<Rightarrow> session
   \<Rightarrow> bool res \<times> session" where
  "export_skeletal_mesh_partitions h x jnt_roots ed scene_path st =
     (if partitions ed = [] then (Some (Inr False), st)
      else
        (case partition_loop h jnt_roots (partitions ed) [] of
           None \<Rightarrow> (None, st)
         | Some (Inl e) \<Rightarrow> (Some (Inl e), st)
         | Some (Inr partitions_data) \<Rightarrow>
             (case execute_loop x ed scene_path partitions_data st of
                (Some e, st') \<Rightarrow> (Some (Inl e), st')
              | (None, st') \<Rightarrow> (Some (Inr True), st'))))"

subsection \<open>Names of nodes\<close>

text \<open>
  A node is named by its full path or, where that is unambiguous, by its short name, the
  text after the last \<open>|\<close>. \<open>dag_table\<close> lists every node of a forest with its kind and
  the path of its parent; \<open>resolve\<close> gives the nodes a name stands for, \<open>descendants\<close>
  the nodes below a node and \<open>joint_paths\<close> the joints of the forest.
\<close>

definition short_name :: "string \<Rightarrow> string" where
  "short_name p = rev (takeWhile (\<lambda>c. c \<noteq> CHR ''|'') (rev p))"

function dag_table :: "string option \<Rightarrow> dag list \<Rightarrow> (string \<times> kind \<times> string option) list" where
  "dag_table parent [] = []"
| "dag_table parent (Node p k cs # ns) =
     (p, k, parent) # dag_table (Some p) cs @ dag_table parent ns"
  by pat_completeness auto
termination
  by (relation "measure (\<lambda>(parent, ns). size_list size ns)") auto

definition resolve :: "dag list \<Rightarrow> string \<Rightarrow> string list" where
  "resolve sc name = [p. (p, k, parent) \<leftarrow> dag_table None sc, name = p \<or> name = short_name p]"

definition descendants :: "dag list \<Rightarrow> string \<Rightarrow> string list" where
  "descendants sc p =
     concat (map (\<lambda>n. paths (node_children n)) (filter (\<lambda>n. node_path n = p) (nodes_of sc)))"

definition joint_paths :: "dag list \<Rightarrow> string list" where
  "joint_paths sc = [p. (p, k, parent) \<leftarrow> dag_table None sc, k = Joint]"

subsection \<open>\<open>_cleanup_stale_dag_hierarchies\<close> and \<open>_parent_to_root\<close> (lines 352-408)\<close>

text \<open>\<open>list.remove(x)\<close> removes the first occurrence and raises \<open>ValueError\<close> when
  there is none. \<open>_get_dag_objects_under_scene_root\<close> (lines 411-430) lists the full
  path names of the children of the world.\<close>

definition IGNORED_OBJECTS :: "string list" where
  "IGNORED_OBJECTS = [''|persp'', ''|top'', ''|front'', ''|side'']"

definition list_remove :: "'a \<Rightarrow> 'a list \<Rightarrow> error + 'a list" where
  "list_remove x xs = (if x \<in> set xs then Inr (remove1 x xs) else Inl ValueError)"

definition get_dag_objects_under_scene_root :: "dag list \<Rightarrow> string list" where
  "get_dag_objects_under_scene_root sc = map node_path sc"

text \<open>Lines 359-360: the fixed names are removed without a guard.\<close>

fun remove_ignored :: "string list \<Rightarrow> string list \<Rightarrow> error + string list" where
  "remove_ignored [] obj_names = Inr obj_names"
| "remove_ignored (i_o # rest) obj_names =
     (case list_remove i_o obj_names of
        Inl e \<Rightarrow> Inl e
      | Inr obj_names' \<Rightarrow> remove_ignored rest obj_names')"

text \<open>Lines 362-367: the kept names, prefixed with \<open>|\<close>, are removed inside
  \<open>try\<close>; the \<open>except\<close> branch prints and goes on.\<close>

fun remove_kept :: "string list \<Rightarrow> string list \<Rightarrow> string list" where
  "remove_kept [] obj_names = obj_names"
| "remove_kept (i_o # rest) obj_names =
     (case list_remove (''|'' @ i_o) obj_names of
        Inl e \<Rightarrow> remove_kept rest obj_names
      | Inr obj_names' \<Rightarrow> remove_kept rest obj_names')"

text \<open>Lines 372-382: each remaining name is added to a fresh selection list; unless
  the list then holds exactly one path the name is skipped, otherwise the node is
  deleted with its subtree.\<close>

fun delete_stale :: "host \<Rightarrow> string list \<Rightarrow> dag list \<Rightarrow> error option \<times> dag list" where
  "delete_stale h [] sc = (None, sc)"
| "delete_stale h (name # rest) sc =
     (case MSelectionList_add h name of
        Inl e \<Rightarrow> (Some e, sc)
      | Inr temp_sel \<Rightarrow>
          if length temp_sel \<noteq> 1 then delete_stale h rest sc
          else delete_stale h rest (remove_subtrees (hd temp_sel) sc))"

definition cleanup_stale_dag_hierarchies ::
  "host \<Rightarrow> string list \<Rightarrow> dag list \<Rightarrow> error option \<times> dag list" where
  "cleanup_stale_dag_hierarchies h ignore_objects sc =
     (case remove_ignored IGNORED_OBJECTS (get_dag_objects_under_scene_root sc) of
        Inl e \<Rightarrow> (Some e, sc)
      | Inr obj_names \<Rightarrow> delete_stale h (remove_kept ignore_objects obj_names) sc)"

text \<open>Lines 391-408. The name of a node's parent is \<open>world\<close> for a child of the
  world; \<open>cmds.parent(name, world=True)\<close> moves the node, with its subtree, under the
  world, where its path is \<open>|\<close> followed by its short name.\<close>

definition parent_name :: "dag list \<Rightarrow> string \<Rightarrow> string" where
  "parent_name sc p =
     (case [parent. (q, k, parent) \<leftarrow> dag_table None sc, q = p] of
        Some q # _ \<Rightarrow> short_name q
      | _ \<Rightarrow> ''world'')"

primrec rebase :: "nat \<Rightarrow> string \<Rightarrow> dag \<Rightarrow> dag" where
  "rebase n prefix (Node p k cs) = Node (prefix @ drop n p) k (map (rebase n prefix) cs)"

definition cmds_parent_world :: "string \<Rightarrow> dag list \<Rightarrow> dag list" where
  "cmds_parent_world p sc =
     (case find (\<lambda>n. node_path n = p) (nodes_of sc) of
        None \<Rightarrow> sc
      | Some n \<Rightarrow> remove_subtrees p sc @ [rebase (length p) (''|'' @ short_name p) n])"

definition parent_to_root :: "host \<Rightarrow> string \<Rightarrow> dag list \<Rightarrow> error option \<times> dag list" where
  "parent_to_root h name sc =
     (case MSelectionList_add h name of
        Inl e \<Rightarrow> (Some e, sc)
      | Inr temp_sel \<Rightarrow>
          if length temp_sel \<noteq> 1 then (None, sc)
          else if parent_name sc (hd temp_sel) = ''world'' then (None, sc)
          else (None, cmds_parent_world (hd temp_sel) sc))"

subsection \<open>\<open>_clean_namespaces\<close>, \<open>_remove_namespace\<close> and \<open>_get_scene_namespaces\<close> (lines 433-472)\<close>

text \<open>
  What \<open>om.MNamespace\<close> answers: \<open>getNamespaces()\<close>, and
  \<open>getNamespaces(namespace, True)\<close> for the namespaces below one. Renaming nodes
  leaves the namespaces themselves in place, so the answers do not change during the
  pass. The dependency nodes are given by their names as \<open>dg.name()\<close> returns them,
  \<open>rig:fx:Spark\<close>; the namespace of a node (\<open>dg.namespace\<close>) is the part of its name
  before the last colon, and \<open>setName\<close> reads a leading colon as the root namespace.
  A namespace \<open>ns\<close> contains the nodes whose namespace it names, with or without the
  leading colon.
\<close>

record namespaces =
  getNamespaces :: "string list"
  getNamespaces_recurse :: "string \<Rightarrow> string list"

definition IGNORED_NAMESPACES :: "string list" where
  "IGNORED_NAMESPACES = ['':UI'', '':shared'', '':root'']"

fun remove_present :: "string list \<Rightarrow> string list \<Rightarrow> string list" where
  "remove_present [] spaces = spaces"
| "remove_present (ignored # rest) spaces =
     remove_present rest (if ignored \<in> set spaces then remove1 ignored spaces else spaces)"

definition get_scene_namespaces :: "namespaces \<Rightarrow> string list" where
  "get_scene_namespaces t = remove_present IGNORED_NAMESPACES (getNamespaces t)"

definition node_namespace :: "string \<Rightarrow> string" where
  "node_namespace name = rev (tl (dropWhile (\<lambda>c. c \<noteq> CHR '':'') (rev name)))"

definition setName :: "string \<Rightarrow> string" where
  "setName new_name = (if new_name \<noteq> [] \<and> hd new_name = CHR '':'' then tl new_name else new_name)"

definition remove_namespace :: "string \<Rightarrow> string" where
  "remove_namespace name = setName (drop (length (node_namespace name)) name)"

definition in_namespace :: "string \<Rightarrow> string \<Rightarrow> bool" where
  "in_namespace ns name = (setName ns = node_namespace name)"

definition strip_objects :: "string \<Rightarrow> string list \<Rightarrow> string list" where
  "strip_objects ns names = map (\<lambda>n. if in_namespace ns n then remove_namespace n else n) names"

fun child_loop :: "string list \<Rightarrow> string list \<Rightarrow> string list" where
  "child_loop [] names = names"
| "child_loop (chld_ns # rest) names = child_loop rest (strip_objects chld_ns names)"

fun namespace_loop :: "namespaces \<Rightarrow> string list \<Rightarrow> string list \<Rightarrow> string list" where
  "namespace_loop t [] names = names"
| "namespace_loop t (namespace # rest) names =
     namespace_loop t rest
       (strip_objects namespace (child_loop (getNamespaces_recurse t namespace) names))"

definition clean_namespaces :: "namespaces \<Rightarrow> string list \<Rightarrow> string list" where
  "clean_namespaces t names = namespace_loop t (get_scene_namespaces t) names"

section \<open>Predicates the statements use\<close>


text \<open>The minimality rule of the planner: \<open>jh\<close> is the entry of candidate \<open>c\<close>, it is
  not empty, every earlier entry is empty or strictly longer, and every later entry is
  empty or at least as long. \<open>beats best jh\<close>: the loop of lines 177-186 replaces
  \<open>best\<close> by \<open>jh\<close>.\<close>

definition beats :: "(string \<times> string list) option \<Rightarrow> string list \<Rightarrow> bool" where
  "beats best jh = (case best of None \<Rightarrow> True | Some (r0, h0) \<Rightarrow> length jh < length h0)"

definition first_shortest ::
  "(string \<times> string list) list \<Rightarrow> string \<Rightarrow> string list \<Rightarrow> bool" where
  "first_shortest items c jh =
     (\<exists>pre post. items = pre @ (c, jh) # post \<and> jh \<noteq> [] \<and>
        (\<forall>(c', jh') \<in> set pre. jh' = [] \<or> length jh < length jh') \<and>
        (\<forall>(c', jh') \<in> set post. jh' = [] \<or> length jh \<le> length jh'))"

text \<open>The number of joints among the entries of a hierarchy.\<close>

definition joint_count :: "dag list \<Rightarrow> string list \<Rightarrow> nat" where
  "joint_count sc jh = length (filter (\<lambda>p. p \<in> set (joint_paths sc)) jh)"

text \<open>A node the executor deletes for a partition: a mesh outside the partition's mesh
  list, or a joint outside the plan's hierarchy. \<open>cut_subtrees D\<close> removes from a forest
  every node that satisfies \<open>D\<close>, with its subtree; \<open>labels\<close> lists the path and the
  kind of every node.\<close>

definition excluded :: "string list \<Rightarrow> string list \<Rightarrow> string \<Rightarrow> kind \<Rightarrow> bool" where
  "excluded meshes joints p k = ((k = Mesh \<and> p \<notin> set meshes) \<or> (k = Joint \<and> p \<notin> set joints))"

function cut_subtrees :: "(string \<Rightarrow> kind \<Rightarrow> bool) \<Rightarrow> dag list \<Rightarrow> dag list" where
  "cut_subtrees D [] = []"
| "cut_subtrees D (Node p k cs # ns) =
     (if D p k then cut_subtrees D ns else Node p k (cut_subtrees D cs) # cut_subtrees D ns)"
  by pat_completeness auto
termination
  by (relation "measure (\<lambda>(D, ns). size_list size ns)") auto

definition labels :: "dag list \<Rightarrow> (string \<times> kind) list" where
  "labels sc = map (\<lambda>n. (node_path n, node_kind n)) (nodes_of sc)"

text \<open>The name of a node without its namespace, the name the pass gives to every node
  of a namespace it visits (\<open>stripped\<close>), and the namespaces in the order in which
  \<open>_clean_namespaces\<close> visits them.\<close>

definition leaf_name :: "string \<Rightarrow> string" where
  "leaf_name name = rev (takeWhile (\<lambda>c. c \<noteq> CHR '':'') (rev name))"

definition stripped :: "string list \<Rightarrow> string \<Rightarrow> string" where
  "stripped visited name = (if \<exists>ns \<in> set visited. in_namespace ns name then leaf_name name else name)"

definition visit_order :: "namespaces \<Rightarrow> string list \<Rightarrow> string list" where
  "visit_order t spaces = concat (map (\<lambda>ns. getNamespaces_recurse t ns @ [ns]) spaces)"

section \<open>Example scenes and sessions\<close>

subsection \<open>The answers of a scene with unique short names\<close>

text \<open>
  For concrete runs, the queries are read off a forest: a name resolves to the nodes
  whose full path or short name (the text after the last \<open>|\<close>) it is, and \<open>add\<close>
  raises when there is none; \<open>listRelatives\<close> answers \<open>None\<close> for an empty result
  and gives a parent by its short name unless the full path is asked for; \<open>ls\<close>
  keeps the joints among the names it is given and, given \<open>None\<close> in their place, lists
  every joint of the scene, as it does when it is given no name. The skin clusters are a
  table from mesh to influences.
\<close>

definition scene_host :: "dag list \<Rightarrow> (string \<times> string list) list \<Rightarrow> host" where
  "scene_host sc skin =
     \<lparr>MSelectionList_add = (\<lambda>name.
        if resolve sc name = []
        then Inl (RuntimeError ''(kInvalidParameter): Object does not exist'')
        else Inr (resolve sc name)),
      listRelatives_ad = (\<lambda>p. if descendants sc p = [] then None else Some (descendants sc p)),
      ls_joint = (\<lambda>xs.
        case xs of
          None \<Rightarrow> Inr (joint_paths sc)
        | Some names \<Rightarrow> Inr (filter (\<lambda>p. p \<in> set (joint_paths sc)) names)),
      listRelatives_p = (\<lambda>p.
        case [q. (p', k, Some q) \<leftarrow> dag_table None sc, p' = p] of
          [] \<Rightarrow> None
        | q # qs \<Rightarrow> Some (q # qs)),
      listRelatives_parent_joint = (\<lambda>name.
        case [short_name q. (p', k, Some q) \<leftarrow> dag_table None sc,
                name = p' \<or> name = short_name p', q \<in> set (joint_paths sc)] of
          [] \<Rightarrow> None
        | q # qs \<Rightarrow> Some (q # qs)),
      skinCluster_influence = (\<lambda>mesh.
        case map_of skin mesh of
          None \<Rightarrow> Inl (RuntimeError ''No skinCluster found'')
        | Some influences \<Rightarrow> Inr (Some influences))\<rparr>"

text \<open>The skeleton \<open>Root \<rightarrow> Spine \<rightarrow> Arm \<rightarrow> Hand\<close> of the specification's example, a
  second skeleton \<open>Prop\<close>, and the mesh \<open>Glove\<close> skinned to \<open>Hand\<close>.\<close>

definition glove_scene :: "dag list" where
  "glove_scene =
     [Node ''|Root'' Joint
        [Node ''|Root|Spine'' Joint
           [Node ''|Root|Spine|Arm'' Joint
              [Node ''|Root|Spine|Arm|Hand'' Joint []]]],
      Node ''|Prop'' Joint [],
      Node ''|Glove'' Mesh []]"

definition glove_host :: host where
  "glove_host = scene_host glove_scene [(''Glove'', [''Hand''])]"

text \<open>The same session with an \<open>ls\<close> that refuses \<open>None\<close> in place of a list of names.\<close>

definition strict_glove_host :: host where
  "strict_glove_host =
     glove_host\<lparr>ls_joint :=
       (\<lambda>xs. case xs of None \<Rightarrow> Inl TypeError | Some names \<Rightarrow> ls_joint glove_host xs)\<rparr>"


definition sword_scene :: "dag list" where
  "sword_scene =
     [Node ''|Hips'' Joint
        [Node ''|Hips|Spine'' Joint
           [Node ''|Hips|Spine|Chest'' Joint
              [Node ''|Hips|Spine|Chest|Arm'' Joint
                 [Node ''|Hips|Spine|Chest|Arm|Hand'' Joint []]]]],
      Node ''|Prop'' Joint
        [Node ''|Prop|Handle'' Joint
           [Node ''|Prop|Handle|Blade'' Joint []]],
      Node ''|Body'' Mesh []]"

definition sword_host :: host where
  "sword_host = scene_host sword_scene [(''Body'', [''Hand'', ''Blade''])]"

definition glove_partition :: partition where
  "glove_partition = \<lparr>enabled = True, skeletal_meshes = Some [''Glove'']\<rparr>"

definition glove_export_data :: export_data where
  "glove_export_data =
     \<lparr>file_path = ''/out'', file_name = ''rig'',
      partitions = [(''Glove'', glove_partition)],
      preset_path = None, up_axis = None, fbx_version = None, file_type = None\<rparr>"

definition maya_exporter :: "dag list \<Rightarrow> string list \<Rightarrow> exporter" where
  "maya_exporter snapshot failing =
     \<lparr>cmds_file_open = (\<lambda>p.
        if p = ''rig_conditioned.ma'' then Inr snapshot
        else Inl (RuntimeError ''File not found'')),
      pfbx = (\<lambda>c sc sel.
        case c of
          FBXExport f \<Rightarrow> if f \<in> set failing then Some (RuntimeError ''FBXExport failed'') else None
        | _ \<Rightarrow> None),
      format_exc = (\<lambda>e. ''Traceback (most recent call last)''),
      cmds_error = (\<lambda>message. Some (RuntimeError message))\<rparr>"

definition new_session :: session where
  "new_session = \<lparr>scene = [], selection = [], exported = []\<rparr>"

definition meshless_export_data :: export_data where
  "meshless_export_data =
     glove_export_data\<lparr>partitions :=
       [(''Glove'', glove_partition), (''Cape'', \<lparr>enabled = True, skeletal_meshes = None\<rparr>)]\<rparr>"

definition sword_hierarchies :: "(string \<times> string list) list" where
  "sword_hierarchies =
     [(''Hips'', [''|Hips'', ''|Hips|Spine'', ''|Hips|Spine|Chest'', ''|Hips|Spine|Chest|Arm'',
                  ''|Hips|Spine|Chest|Arm|Hand'']),
      (''Chest'', [''|Hips|Spine|Chest'', ''|Hips|Spine|Chest|Arm'', ''|Hips|Spine|Chest|Arm|Hand'']),
      (''Prop'', [''|Prop'', ''|Prop|Handle'', ''|Prop|Handle|Blade''])]"

text \<open>A rig with two transforms between the joints \<open>Tail\<close> and \<open>Tip\<close>, beside a chain
  of three joints; the mesh is skinned to the ends of both.\<close>

definition buffered_scene :: "dag list" where
  "buffered_scene =
     [Node ''|Tail'' Joint
        [Node ''|Tail|offset_a'' Transform
           [Node ''|Tail|offset_a|offset_b'' Transform
              [Node ''|Tail|offset_a|offset_b|Tip'' Joint []]]],
      Node ''|Hips'' Joint
        [Node ''|Hips|Leg'' Joint
           [Node ''|Hips|Leg|Foot'' Joint []]],
      Node ''|Body'' Mesh []]"

definition buffered_host :: host where
  "buffered_host = scene_host buffered_scene [(''Body'', [''Tip'', ''Foot''])]"

definition body_partition :: partition where
  "body_partition = \<lparr>enabled = True, skeletal_meshes = Some [''Body'']\<rparr>"

text \<open>A character with an arm and a leg, a glove and a boot; in the second scene the
  glove is parented under the body mesh. The conditioned scene file is
  \<open>rig_conditioned.ma\<close>.\<close>

definition wardrobe_scene :: "dag list" where
  "wardrobe_scene =
     [Node ''|Root'' Joint
        [Node ''|Root|Spine'' Joint
           [Node ''|Root|Spine|Arm'' Joint
              [Node ''|Root|Spine|Arm|Hand'' Joint []]],
         Node ''|Root|Leg'' Joint
           [Node ''|Root|Leg|Foot'' Joint []]],
      Node ''|Glove'' Mesh [],
      Node ''|Boot'' Mesh []]"

definition layered_scene :: "dag list" where
  "layered_scene =
     [Node ''|Root'' Joint
        [Node ''|Root|Spine'' Joint
           [Node ''|Root|Spine|Arm'' Joint
              [Node ''|Root|Spine|Arm|Hand'' Joint []]],
         Node ''|Root|Leg'' Joint
           [Node ''|Root|Leg|Foot'' Joint []]],
      Node ''|Body'' Mesh
        [Node ''|Body|Glove'' Mesh []],
      Node ''|Boot'' Mesh []]"

definition wardrobe_host :: host where
  "wardrobe_host = scene_host wardrobe_scene [(''|Glove'', [''Hand'']), (''|Boot'', [''Foot''])]"

definition wardrobe_export_data :: export_data where
  "wardrobe_export_data =
     \<lparr>file_path = ''/out'', file_name = ''rig'',
      partitions =
        [(''Glove'', \<lparr>enabled = True, skeletal_meshes = Some [''|Glove'']\<rparr>),
         (''Boot'', \<lparr>enabled = True, skeletal_meshes = Some [''|Boot'']\<rparr>)],
      preset_path = None, up_axis = Some ''y'', fbx_version = Some ''FBX 2020/2021'',
      file_type = Some ''Binary''\<rparr>"

definition glove_plan :: plan where
  "glove_plan = \<lparr>root = ''Root'',
     hierarchy = [''|Root'', ''|Root|Spine'', ''|Root|Spine|Arm'', ''|Root|Spine|Arm|Hand'']\<rparr>"

definition boot_plan :: plan where
  "boot_plan = \<lparr>root = ''Root'', hierarchy = [''|Root'', ''|Root|Leg'', ''|Root|Leg|Foot'']\<rparr>"

definition glove_failed :: session where
  "glove_failed =
     \<lparr>scene = [Node ''|Root'' Joint [Node ''|Root|Spine'' Joint [Node ''|Root|Spine|Arm'' Joint
                  [Node ''|Root|Spine|Arm|Hand'' Joint []]]],
               Node ''|Glove'' Mesh []],
      selection = [''|Root'', ''|Root|Spine'', ''|Root|Spine|Arm'', ''|Root|Spine|Arm|Hand'',
                   ''|Glove''],
      exported = []\<rparr>"

text \<open>A scene whose default cameras were grouped under a transform, and a freshly
  imported scene with a stale group; \<open>imported_host\<close> answers for the second.\<close>

definition grouped_cameras_scene :: "dag list" where
  "grouped_cameras_scene =
     [Node ''|cameras'' Transform
        [Node ''|cameras|persp'' Transform [], Node ''|cameras|top'' Transform [],
         Node ''|cameras|front'' Transform [], Node ''|cameras|side'' Transform []],
      Node ''|Root'' Joint [Node ''|Root|Spine'' Joint []]]"

definition imported_scene :: "dag list" where
  "imported_scene =
     [Node ''|persp'' Transform [], Node ''|top'' Transform [], Node ''|front'' Transform [],
      Node ''|side'' Transform [],
      Node ''|rig'' Transform
        [Node ''|rig|Root'' Joint [Node ''|rig|Root|Spine'' Joint []],
         Node ''|rig|Glove'' Mesh []],
      Node ''|Body'' Mesh [],
      Node ''|stale_grp'' Transform [Node ''|stale_grp|locator1'' Other []]]"

definition imported_host :: host where
  "imported_host = scene_host imported_scene []"

text \<open>Namespaces of a scene with a referenced rig, and of a scene that has only the
  reserved ones.\<close>

definition rig_namespaces :: namespaces where
  "rig_namespaces =
     \<lparr>getNamespaces = ['':UI'', '':shared'', '':rig''],
      getNamespaces_recurse = (\<lambda>ns. if ns = '':rig'' then ['':rig:fx''] else [])\<rparr>"

definition stripped_namespaces :: namespaces where
  "stripped_namespaces =
     \<lparr>getNamespaces = ['':UI'', '':shared''], getNamespaces_recurse = (\<lambda>ns. [])\<rparr>"

text \<open>The two loops of the chain resolver are run by their fixpoint equations.\<close>

declare joint_list_loop.simps [code]
declare get_root_joint.simps [code]

section \<open>Lemmas\<close>

subsection \<open>The result monad\<close>

lemma bind_res_simps [simp]:
  "bind_res None f = None"
  "bind_res (Some (Inl e)) f = Some (Inl e)"
  "bind_res (Some (Inr a)) f = f a"
  by (simp_all add: bind_res_def)

lemma bind_res_Inr:
  "bind_res m f = Some (Inr b) \<Longrightarrow> \<exists>a. m = Some (Inr a) \<and> f a = Some (Inr b)"
  by (auto simp: bind_res_def split: option.splits sum.splits)



subsection \<open>\<open>_get_joint_list\<close>\<close>

lemma loop_result_aux:
  "joint_list_loop h s jl = Some y \<Longrightarrow>
     (\<forall>out. y = Inr out \<longrightarrow> jl \<noteq> [] \<longrightarrow> out \<noteq> [] \<and> last out = s \<and> hd out = hd jl)"
  by (erule joint_list_loop.raw_induct[rotated])
     (auto split: if_splits option.splits list.splits)

lemma loop_result:
  "joint_list_loop h s jl = Some (Inr out) \<Longrightarrow> jl \<noteq> [] \<Longrightarrow> out \<noteq> [] \<and> last out = s \<and> hd out = hd jl"
  using loop_result_aux by blast

lemma get_joint_list_ends:
  assumes "get_joint_list h s e = Some (Inr chain)" "chain \<noteq> []"
  shows "full_path_of h s = Some (hd chain) \<and> full_path_of h e = Some (last chain)"
  using assms
  apply (auto simp: get_joint_list_def bind_res_def Let_def split: option.splits if_splits sum.splits)
  apply (drule loop_result; simp add: hd_rev last_rev)+
  done



text \<open>Unrelated joints: when the start joint has descendants and the end joint is not
  a joint among them, the chain is empty. When it has none, \<open>listRelatives\<close> gives
  \<open>None\<close>, and a descendant list that holds the end joint sends the call into the
  upward walk, which does not return the empty chain.\<close>

lemma get_joint_list_unrelated:
  assumes "full_path_of h r = Some r'" and "full_path_of h j = Some j'" and "r' \<noteq> j'"
    and "listRelatives_ad h r' = Some names" and "ls_joint h (Some names) = Inr joints"
    and "j' \<notin> set joints"
  shows "get_joint_list h r j = Some (Inr [])"
  using assms by (simp add: get_joint_list_def count_list_0_iff)

lemma get_joint_list_leaf_start:
  assumes "full_path_of h r = Some r'" and "full_path_of h j = Some j'" and "r' \<noteq> j'"
    and "listRelatives_ad h r' = None"
  shows "(\<forall>e. ls_joint h None = Inl e \<longrightarrow> get_joint_list h r j = Some (Inl e))
     \<and> (\<forall>ds. ls_joint h None = Inr ds \<and> j' \<notin> set ds \<longrightarrow> get_joint_list h r j = Some (Inr []))
     \<and> (\<forall>ds. ls_joint h None = Inr ds \<and> j' \<in> set ds \<longrightarrow> get_joint_list h r j \<noteq> Some (Inr []))"
proof -
  have a: "get_joint_list h r j = Some (Inl e)" if "ls_joint h None = Inl e" for e
    using assms that by (simp add: get_joint_list_def)
  have b: "get_joint_list h r j = Some (Inr [])" if "ls_joint h None = Inr ds \<and> j' \<notin> set ds" for ds
    using assms that by (simp add: get_joint_list_def count_list_0_iff)
  have c: "get_joint_list h r j \<noteq> Some (Inr [])" if "ls_joint h None = Inr ds \<and> j' \<in> set ds" for ds
  proof
    assume e: "get_joint_list h r j = Some (Inr [])"
    from assms that have "get_joint_list h r j
        = bind_res (joint_list_loop h r' [j']) (\<lambda>joint_list. Some (Inr (rev joint_list)))"
      by (simp add: get_joint_list_def count_list_0_iff)
    with e obtain jl where "joint_list_loop h r' [j'] = Some (Inr jl)" "rev jl = []"
      by (auto dest!: bind_res_Inr)
    with loop_result[of h r' "[j']" jl] show False by simp
  qed
  from a b c show ?thesis by blast
qed

lemma joint_count_all:
  "set jh \<subseteq> set (joint_paths sc) \<Longrightarrow> joint_count sc jh = length jh"
  by (simp add: joint_count_def subset_iff)

lemma first_shortest_least:
  assumes "first_shortest items c jh" and "(c', jh') \<in> set items" and "jh' \<noteq> []"
  shows "length jh \<le> length jh'"
  using assms unfolding first_shortest_def by fastforce

lemma first_shortest_member:
  "first_shortest items c jh \<Longrightarrow> (c, jh) \<in> set items"
  unfolding first_shortest_def by auto

subsection \<open>The loops of the planner\<close>

lemma first_shortest_skip:
  "first_shortest items c jh \<Longrightarrow> jh0 = [] \<or> length jh < length jh0
     \<Longrightarrow> first_shortest ((c0, jh0) # items) c jh"
  unfolding first_shortest_def
  apply (elim exE conjE)
  subgoal for pre post
    by (rule exI[of _ "(c0, jh0) # pre"], rule exI[of _ post]) auto
  done

lemma first_shortest_here:
  "jh \<noteq> [] \<Longrightarrow> \<forall>(c', jh') \<in> set items. jh' = [] \<or> length jh \<le> length jh'
     \<Longrightarrow> first_shortest ((c, jh) # items) c jh"
  unfolding first_shortest_def
  by (rule exI[of _ "[]"], rule exI[of _ items]) auto

lemma shortest_loop_spec:
  "(shortest_loop items best = best \<and>
      (\<forall>(c, jh) \<in> set items. jh = [] \<or> \<not> beats best jh))
   \<or> (\<exists>c jh. shortest_loop items best = Some (c, jh) \<and> beats best jh \<and>
         first_shortest items c jh)"
proof (induction items arbitrary: best)
  case Nil
  then show ?case by simp
next
  case (Cons item items)
  obtain c0 jh0 where item: "item = (c0, jh0)" by (cases item)
  show ?case
  proof (cases "jh0 = []")
    case True
    with Cons.IH[of best] item show ?thesis
      by (auto intro: first_shortest_skip)
  next
    case ne: False
    show ?thesis
    proof (cases "beats best jh0")
      case True
      then have step: "shortest_loop (item # items) best = shortest_loop items (Some (c0, jh0))"
        using item ne by (auto simp: beats_def split: option.splits)
      from Cons.IH[of "Some (c0, jh0)"] show ?thesis
      proof
        assume a: "shortest_loop items (Some (c0, jh0)) = Some (c0, jh0) \<and>
          (\<forall>(c, jh) \<in> set items. jh = [] \<or> \<not> beats (Some (c0, jh0)) jh)"
        then have "first_shortest (item # items) c0 jh0"
          unfolding item using ne
          by (intro first_shortest_here) (auto simp: beats_def)
        with a step True show ?thesis by auto
      next
        assume "\<exists>c jh. shortest_loop items (Some (c0, jh0)) = Some (c, jh) \<and>
          beats (Some (c0, jh0)) jh \<and> first_shortest items c jh"
        then obtain c jh where b: "shortest_loop items (Some (c0, jh0)) = Some (c, jh)"
          "beats (Some (c0, jh0)) jh" "first_shortest items c jh" by blast
        then have "first_shortest (item # items) c jh"
          unfolding item by (intro first_shortest_skip) (auto simp: beats_def)
        moreover have "beats best jh"
          using True b(2) by (auto simp: beats_def split: option.splits)
        ultimately show ?thesis using step b(1) by auto
      qed
    next
      case False
      then obtain r0 h0 where best: "best = Some (r0, h0)" "length h0 \<le> length jh0"
        by (auto simp: beats_def split: option.splits)
      then have step: "shortest_loop (item # items) best = shortest_loop items best"
        using item ne by auto
      from Cons.IH[of best] show ?thesis
      proof
        assume "shortest_loop items best = best \<and>
          (\<forall>(c, jh) \<in> set items. jh = [] \<or> \<not> beats best jh)"
        with step False item show ?thesis by auto
      next
        assume "\<exists>c jh. shortest_loop items best = Some (c, jh) \<and> beats best jh \<and>
          first_shortest items c jh"
        then obtain c jh where b: "shortest_loop items best = Some (c, jh)"
          "beats best jh" "first_shortest items c jh" by blast
        then have "first_shortest (item # items) c jh"
          unfolding item using best by (intro first_shortest_skip) (auto simp: beats_def)
        with step b show ?thesis by auto
      qed
    qed
  qed
qed

lemma shortest_loop_None:
  assumes "(c0, jh0) \<in> set items" "jh0 \<noteq> []"
  shows "\<exists>c jh. shortest_loop items None = Some (c, jh) \<and> first_shortest items c jh"
  using shortest_loop_spec[of items None] assms
  by (auto simp: beats_def)

lemma partition_loop_append:
  "partition_loop h jnt_roots (ps @ qs) pd =
     bind_res (partition_loop h jnt_roots ps pd) (\<lambda>pd'. partition_loop h jnt_roots qs pd')"
proof (induction ps arbitrary: pd)
  case Nil
  show ?case by simp
next
  case (Cons p ps)
  obtain n d where p: "p = (n, d)" by (cases p)
  show ?case
    unfolding p using Cons.IH
    by (cases "plan_partition h jnt_roots d" rule: option.exhaust[case_names None Some])
       (auto simp: bind_res_def split: sum.splits)
qed

lemma plan_partition_no_meshes:
  "skeletal_meshes d = None \<Longrightarrow> plan_partition h jnt_roots d = Some (Inl TypeError)"
  by (simp add: plan_partition_def)

lemma partition_loop_no_meshes:
  assumes "enabled d" "skeletal_meshes d = None"
    "partition_loop h jnt_roots before [] = Some (Inr pd)"
  shows "partition_loop h jnt_roots (before @ (n, d) # rest) [] = Some (Inl TypeError)"
  using assms by (simp add: partition_loop_append plan_partition_no_meshes)












text \<open>The keys of \<open>joint_hierarchy\<close> are the candidate roots, in their order.\<close>

lemma keys_map_entry [simp]: "map fst (map_entry k f d) = map fst d"
  by (induction d) auto

lemma keys_setdefault_old: "k \<in> fst ` set d \<Longrightarrow> map fst (setdefault d k v) = map fst d"
proof (induction d)
  case Nil
  then show ?case by simp
next
  case (Cons x d)
  obtain k' v' where x: "x = (k', v')" by (cases x)
  show ?case
  proof (cases "k' = k")
    case True
    then show ?thesis by (simp add: x)
  next
    case False
    with Cons.prems have "k \<in> fst ` set d" by (force simp: x)
    with Cons.IH False show ?thesis by (simp add: x)
  qed
qed

lemma keys_setdefault_new: "k \<notin> fst ` set d \<Longrightarrow> map fst (setdefault d k v) = map fst d @ [k]"
proof (induction d)
  case Nil
  then show ?case by simp
next
  case (Cons x d)
  obtain k' v' where x: "x = (k', v')" by (cases x)
  from Cons.prems have "k' \<noteq> k" "k \<notin> fst ` set d" by (force simp: x)+
  with Cons.IH show ?case by (simp add: x)
qed

lemma keys_setdefault:
  "map fst (setdefault d k v) = (if k \<in> set (map fst d) then map fst d else map fst d @ [k])"
  using keys_setdefault_old[of k d v] keys_setdefault_new[of k d v] by simp

lemma influence_loop_keys:
  "influence_loop h r infs jh = Some (Inr jh') \<Longrightarrow> map fst jh' = map fst jh"
proof (induction infs arbitrary: jh)
  case Nil
  then show ?case by simp
next
  case (Cons a infs)
  from Cons.prems obtain c where
    "influence_loop h r infs (map_entry r (\<lambda>acc. append_missing acc c) jh) = Some (Inr jh')"
    by (auto dest!: bind_res_Inr)
  from Cons.IH[OF this] show ?case by simp
qed

lemma root_loop_keys:
  "root_loop h influences roots jh = Some (Inr jh') \<Longrightarrow> distinct roots
     \<Longrightarrow> map fst jh' = map fst jh @ filter (\<lambda>r. r \<notin> set (map fst jh)) roots"
proof (induction roots arbitrary: jh)
  case Nil
  then show ?case by simp
next
  case (Cons a roots)
  from Cons.prems(1) obtain infs jh1 where inf: "influences = Some infs"
    and first: "influence_loop h a infs (setdefault jh a []) = Some (Inr jh1)"
    and rest: "root_loop h influences roots jh1 = Some (Inr jh')"
    by (auto split: option.splits dest!: bind_res_Inr)
  from influence_loop_keys[OF first]
  have k1: "map fst jh1 = (if a \<in> set (map fst jh) then map fst jh else map fst jh @ [a])"
    by (simp add: keys_setdefault)
  from Cons.prems(2) have d: "distinct roots" "a \<notin> set roots" by auto
  from Cons.IH[OF rest d(1)] k1 d(2) show ?case
    by (auto intro: filter_cong)
qed

lemma mesh_loop_keys:
  "mesh_loop h roots meshes jh = Some (Inr jh') \<Longrightarrow> distinct roots \<Longrightarrow> meshes \<noteq> []
     \<Longrightarrow> map fst jh' = map fst jh @ filter (\<lambda>r. r \<notin> set (map fst jh)) roots"
proof (induction meshes arbitrary: jh)
  case Nil
  then show ?case by simp
next
  case (Cons a meshes)
  from Cons.prems(1) obtain infs jh1 where
    first: "root_loop h infs roots jh = Some (Inr jh1)"
    and rest: "mesh_loop h roots meshes jh1 = Some (Inr jh')"
    by (auto split: sum.splits dest!: bind_res_Inr)
  note k1 = root_loop_keys[OF first Cons.prems(2)]
  show ?case
  proof (cases "meshes = []")
    case True
    with rest k1 show ?thesis by simp
  next
    case False
    from Cons.IH[OF rest Cons.prems(2) False] k1
    have "map fst jh' = (map fst jh @ filter (\<lambda>r. r \<notin> set (map fst jh)) roots)
        @ filter (\<lambda>r. r \<notin> set (map fst jh @ filter (\<lambda>r. r \<notin> set (map fst jh)) roots)) roots"
      by simp
    moreover have "filter (\<lambda>r. r \<notin> set (map fst jh @ filter (\<lambda>r. r \<notin> set (map fst jh)) roots)) roots = []"
      by (auto simp: filter_empty_conv)
    ultimately show ?thesis by simp
  qed
qed

lemma mesh_loop_candidate_order:
  "mesh_loop h roots meshes [] = Some (Inr items) \<Longrightarrow> distinct roots \<Longrightarrow> meshes \<noteq> []
     \<Longrightarrow> map fst items = roots"
  by (drule mesh_loop_keys) auto

lemma append_missing_distinct: "distinct acc \<Longrightarrow> distinct (append_missing acc xs)"
  by (induction xs arbitrary: acc) auto

lemma map_entry_distinct:
  "\<forall>(k, v) \<in> set d. distinct v \<Longrightarrow> (\<And>v. distinct v \<Longrightarrow> distinct (f v))
     \<Longrightarrow> \<forall>(k, v) \<in> set (map_entry k0 f d). distinct v"
  by (induction d) (auto split: if_splits)

lemma setdefault_distinct:
  "\<forall>(k, v) \<in> set d. distinct v \<Longrightarrow> distinct v0 \<Longrightarrow> \<forall>(k, v) \<in> set (setdefault d k0 v0). distinct v"
  by (induction d) (auto split: if_splits)

lemma influence_loop_distinct:
  "influence_loop h r infs jh = Some (Inr jh') \<Longrightarrow> \<forall>(k, v) \<in> set jh. distinct v
     \<Longrightarrow> \<forall>(k, v) \<in> set jh'. distinct v"
proof (induction infs arbitrary: jh)
  case Nil
  then show ?case by simp
next
  case (Cons a infs)
  from Cons.prems(1) obtain c where
    rest: "influence_loop h r infs (map_entry r (\<lambda>acc. append_missing acc c) jh) = Some (Inr jh')"
    by (auto dest!: bind_res_Inr)
  have "\<forall>(k, v) \<in> set (map_entry r (\<lambda>acc. append_missing acc c) jh). distinct v"
    using Cons.prems(2) by (rule map_entry_distinct) (rule append_missing_distinct)
  from Cons.IH[OF rest this] show ?case .
qed

lemma root_loop_distinct:
  "root_loop h influences roots jh = Some (Inr jh') \<Longrightarrow> \<forall>(k, v) \<in> set jh. distinct v
     \<Longrightarrow> \<forall>(k, v) \<in> set jh'. distinct v"
proof (induction roots arbitrary: jh)
  case Nil
  then show ?case by simp
next
  case (Cons a roots)
  from Cons.prems(1) obtain infs jh1 where
    first: "influence_loop h a infs (setdefault jh a []) = Some (Inr jh1)"
    and rest: "root_loop h influences roots jh1 = Some (Inr jh')"
    by (auto split: option.splits dest!: bind_res_Inr)
  have "\<forall>(k, v) \<in> set (setdefault jh a []). distinct v"
    using Cons.prems(2) by (rule setdefault_distinct) simp
  from influence_loop_distinct[OF first this] have "\<forall>(k, v) \<in> set jh1. distinct v" .
  from Cons.IH[OF rest this] show ?case .
qed

lemma mesh_loop_distinct:
  "mesh_loop h roots meshes jh = Some (Inr jh') \<Longrightarrow> \<forall>(k, v) \<in> set jh. distinct v
     \<Longrightarrow> \<forall>(k, v) \<in> set jh'. distinct v"
proof (induction meshes arbitrary: jh)
  case Nil
  then show ?case by simp
next
  case (Cons a meshes)
  from Cons.prems(1) obtain infs jh1 where
    first: "root_loop h infs roots jh = Some (Inr jh1)"
    and rest: "mesh_loop h roots meshes jh1 = Some (Inr jh')"
    by (auto split: sum.splits dest!: bind_res_Inr)
  from root_loop_distinct[OF first Cons.prems(2)] have "\<forall>(k, v) \<in> set jh1. distinct v" .
  from Cons.IH[OF rest this] show ?case .
qed

lemma shortest_loop_member:
  "shortest_loop items None = Some (c, jh) \<Longrightarrow> (c, jh) \<in> set items \<and> jh \<noteq> []"
  using shortest_loop_spec[of items None]
  by (auto simp: beats_def first_shortest_def)

lemma plan_partition_Some:
  assumes "plan_partition h jnt_roots d = Some (Inr (Some pl))"
  shows "\<exists>meshes items short. skeletal_meshes d = Some meshes
      \<and> mesh_loop h jnt_roots meshes [] = Some (Inr items)
      \<and> shortest_loop items None = Some (root pl, short)
      \<and> extend_to_root h short = Some (Inr (hierarchy pl))"
  using assms
  by (auto simp: plan_partition_def split: option.splits prod.splits dest!: bind_res_Inr)

subsection \<open>Forests, deletion and breadth-first enumeration\<close>

lemma labels_simps [simp]:
  "labels [] = []"
  "labels (Node p k cs # ns) = (p, k) # labels cs @ labels ns"
  by (simp_all add: labels_def)

lemma paths_labels: "paths sc = map fst (labels sc)"
  by (simp add: paths_def labels_def comp_def)

lemma paths_simps [simp]:
  "paths [] = []"
  "paths (Node p k cs # ns) = p # paths cs @ paths ns"
  by (simp_all add: paths_def)

lemma labels_remove_subset: "set (labels (remove_subtrees name sc)) \<subseteq> set (labels sc)"
  by (induction name sc rule: remove_subtrees.induct) auto

lemma paths_remove_subset: "set (paths (remove_subtrees name sc)) \<subseteq> set (paths sc)"
  using labels_remove_subset[of name sc] by (auto simp: paths_labels)

lemma removed_absent: "name \<notin> set (paths (remove_subtrees name sc))"
  by (induction name sc rule: remove_subtrees.induct) auto

lemma cut_remove:
  "(\<And>k. (name, k) \<in> set (labels sc) \<Longrightarrow> D name k)
     \<Longrightarrow> cut_subtrees D (remove_subtrees name sc) = cut_subtrees D sc"
  by (induction name sc rule: remove_subtrees.induct) auto

lemma paths_cut_subset: "set (paths (cut_subtrees D sc)) \<subseteq> set (paths sc)"
  by (induction D sc rule: cut_subtrees.induct) auto

lemma cut_nothing:
  "(\<And>p k. (p, k) \<in> set (labels sc) \<Longrightarrow> \<not> D p k) \<Longrightarrow> cut_subtrees D sc = sc"
  by (induction D sc rule: cut_subtrees.induct) auto

lemma nodes_of_append: "nodes_of (xs @ ys) = nodes_of xs @ nodes_of ys"
  by (induction xs rule: nodes_of.induct) auto

lemma set_breadth_first: "set (breadth_first queue) = set (nodes_of queue)"
  by (induction queue rule: breadth_first.induct) (auto simp: nodes_of_append)

lemma kind_unique:
  "distinct (paths sc) \<Longrightarrow> (p, k) \<in> set (labels sc) \<Longrightarrow> (p, k') \<in> set (labels sc) \<Longrightarrow> k = k'"
  unfolding paths_labels by (rule eq_key_imp_eq_value)

lemma delete_loop_keeps:
  "(\<And>name k. name \<in> set names \<Longrightarrow> name \<notin> set keep \<Longrightarrow> (name, k) \<in> set (labels sc) \<Longrightarrow> D name k)
     \<Longrightarrow> cut_subtrees D (snd (delete_loop (Some keep) names sc)) = cut_subtrees D sc
       \<and> set (labels (snd (delete_loop (Some keep) names sc))) \<subseteq> set (labels sc)"
proof (induction names arbitrary: sc)
  case Nil
  show ?case by simp
next
  case (Cons name names)
  show ?case
  proof (cases "name \<in> set keep \<or> name \<notin> set (paths sc)")
    case True
    then show ?thesis
    proof
      assume "name \<in> set keep"
      then show ?thesis using Cons.IH[of sc] Cons.prems by simp
    next
      assume "name \<notin> set (paths sc)"
      then show ?thesis using Cons.IH[of sc] Cons.prems by (simp add: cmds_delete_def)
    qed
  next
    case False
    let ?sc1 = "remove_subtrees name sc"
    have step: "delete_loop (Some keep) (name # names) sc = delete_loop (Some keep) names ?sc1"
      using False by (simp add: cmds_delete_def)
    have sub: "set (labels ?sc1) \<subseteq> set (labels sc)" by (rule labels_remove_subset)
    have cut1: "cut_subtrees D ?sc1 = cut_subtrees D sc"
      using Cons.prems[of name] False by (intro cut_remove) auto
    have "cut_subtrees D (snd (delete_loop (Some keep) names ?sc1)) = cut_subtrees D ?sc1
       \<and> set (labels (snd (delete_loop (Some keep) names ?sc1))) \<subseteq> set (labels ?sc1)"
      using Cons.prems sub by (intro Cons.IH) auto
    with step cut1 sub show ?thesis by auto
  qed
qed

lemma delete_loop_done:
  "delete_loop (Some keep) names sc = (None, sc') \<Longrightarrow> name \<in> set names \<Longrightarrow> name \<notin> set keep
     \<Longrightarrow> name \<notin> set (paths sc')"
proof (induction names arbitrary: sc)
  case Nil
  then show ?case by simp
next
  case (Cons a names)
  have shrink: "set (paths (snd (delete_loop (Some keep) ns s))) \<subseteq> set (paths s)" for ns s
    using delete_loop_keeps[of ns keep s "\<lambda>p k. True"] by (auto simp: paths_labels)
  show ?case
  proof (cases "a \<in> set keep")
    case True
    with Cons.prems have "delete_loop (Some keep) names sc = (None, sc')" "name \<in> set names"
      by auto
    from Cons.IH[OF this Cons.prems(3)] show ?thesis .
  next
    case False
    with Cons.prems(1) have inp: "a \<in> set (paths sc)"
      and rest: "delete_loop (Some keep) names (remove_subtrees a sc) = (None, sc')"
      by (auto simp: cmds_delete_def split: if_splits)
    show ?thesis
    proof (cases "name = a")
      case True
      have "a \<notin> set (paths (remove_subtrees a sc))" by (rule removed_absent)
      moreover have "set (paths sc') \<subseteq> set (paths (remove_subtrees a sc))"
        using shrink[of names "remove_subtrees a sc"] rest by simp
      ultimately show ?thesis using True by auto
    next
      case False
      with Cons.prems(2) have "name \<in> set names" by simp
      from Cons.IH[OF rest this Cons.prems(3)] show ?thesis .
    qed
  qed
qed

lemma mesh_objects_labels:
  "name \<in> set (get_all_mesh_dag_objects sc) \<longleftrightarrow> (name, Mesh) \<in> set (labels sc)"
  by (auto simp: get_all_mesh_dag_objects_def labels_def set_breadth_first)

lemma joint_objects_labels:
  "name \<in> set (get_all_joint_dag_objects sc) \<longleftrightarrow> (name, Joint) \<in> set (labels sc)"
  by (auto simp: get_all_joint_dag_objects_def labels_def set_breadth_first)

subsection \<open>The loop of the executor\<close>

lemma execute_loop_append:
  "execute_loop x ed scene_path (xs @ ys) st =
     (case execute_loop x ed scene_path xs st of
        (Some e, st') \<Rightarrow> (Some e, st')
      | (None, st') \<Rightarrow> execute_loop x ed scene_path ys st')"
  by (induction xs arbitrary: st) (auto split: prod.splits option.splits)

lemma try_export_scene:
  "scene (snd (try_export x ed joints meshes path st)) = scene st"
  by (auto simp: try_export_def cmds_select_def split: option.splits sum.splits)

lemma try_export_failed_exports_nothing:
  "try_export x ed joints meshes path st = (Some e, st') \<Longrightarrow> exported st' = exported st"
  by (auto simp: try_export_def cmds_select_def split: option.splits sum.splits if_splits)

subsection \<open>List removal and the clean-up loops\<close>

lemma filter_absent: "x \<notin> set xs \<Longrightarrow> filter (\<lambda>y. y \<noteq> x) xs = xs"
  by (induction xs) auto

lemma remove1_filter: "distinct xs \<Longrightarrow> remove1 x xs = filter (\<lambda>y. y \<noteq> x) xs"
  by (induction xs) (auto simp: filter_absent)

lemma remove_ignored_present:
  "distinct xs \<Longrightarrow> set xs \<subseteq> set names \<Longrightarrow> distinct names
     \<Longrightarrow> remove_ignored xs names = Inr (filter (\<lambda>n. n \<notin> set xs) names)"
proof (induction xs arbitrary: names)
  case Nil
  then show ?case by simp
next
  case (Cons x xs)
  let ?names' = "filter (\<lambda>y. y \<noteq> x) names"
  have r: "remove1 x names = ?names'" using Cons.prems(3) by (rule remove1_filter)
  have "remove_ignored xs ?names' = Inr (filter (\<lambda>n. n \<notin> set xs) ?names')"
    using Cons.prems by (intro Cons.IH) auto
  moreover have "filter (\<lambda>n. n \<notin> set xs) ?names' = filter (\<lambda>n. n \<notin> set (x # xs)) names"
    by (induction names) auto
  ultimately show ?case using Cons.prems(2) r by (simp add: list_remove_def)
qed

lemma remove_kept_filter:
  "distinct names \<Longrightarrow>
     remove_kept keep names = filter (\<lambda>n. n \<notin> (\<lambda>k. ''|'' @ k) ` set keep) names"
proof (induction keep arbitrary: names)
  case Nil
  then show ?case by simp
next
  case (Cons k keep)
  let ?p = "''|'' @ k"
  let ?names' = "filter (\<lambda>y. y \<noteq> ?p) names"
  have r: "remove1 ?p names = ?names'" using Cons.prems by (rule remove1_filter)
  have nop: "?names' = names" if "?p \<notin> set names"
    using that by (rule filter_absent)
  have "remove_kept (k # keep) names = remove_kept keep ?names'"
    using r nop by (simp add: list_remove_def del: append.simps)
  also have "\<dots> = filter (\<lambda>n. n \<notin> (\<lambda>k. ''|'' @ k) ` set keep) ?names'"
    using Cons.prems by (intro Cons.IH) simp
  also have "\<dots> = filter (\<lambda>n. n \<notin> (\<lambda>k. ''|'' @ k) ` set (k # keep)) names"
    by (induction names) auto
  finally show ?case .
qed

lemma top_remove_subtrees:
  "map node_path (remove_subtrees name sc) = filter (\<lambda>p. p \<noteq> name) (map node_path sc)"
  by (induction name sc rule: remove_subtrees.induct) auto

lemma delete_stale_resolved:
  "(\<And>name. name \<in> set names \<Longrightarrow> MSelectionList_add h name = Inr [name])
     \<Longrightarrow> fst (delete_stale h names sc) = None
       \<and> map node_path (snd (delete_stale h names sc))
           = filter (\<lambda>p. p \<notin> set names) (map node_path sc)"
proof (induction names arbitrary: sc)
  case Nil
  then show ?case by simp
next
  case (Cons name names)
  have step: "delete_stale h (name # names) sc = delete_stale h names (remove_subtrees name sc)"
    using Cons.prems[of name] by simp
  have "fst (delete_stale h names (remove_subtrees name sc)) = None
       \<and> map node_path (snd (delete_stale h names (remove_subtrees name sc)))
           = filter (\<lambda>p. p \<notin> set names) (map node_path (remove_subtrees name sc))"
    using Cons.prems by (intro Cons.IH) simp
  moreover have "filter (\<lambda>p. p \<notin> set names) (filter (\<lambda>p. p \<noteq> name) (map node_path sc))
      = filter (\<lambda>p. p \<notin> set (name # names)) (map node_path sc)"
    by (induction sc) auto
  ultimately show ?case using step by (simp add: top_remove_subtrees)
qed

text \<open>When the four fixed names are children of the world, whose names are distinct and
  resolve, the clean-up returns for every list of kept names, resolvable or not, and
  leaves exactly the fixed and the kept children of the world.\<close>

lemma cleanup_leaves_fixed_and_kept:
  assumes "set IGNORED_OBJECTS \<subseteq> set (get_dag_objects_under_scene_root sc)"
    and "distinct (get_dag_objects_under_scene_root sc)"
    and "\<forall>name \<in> set (get_dag_objects_under_scene_root sc). MSelectionList_add h name = Inr [name]"
  shows "fst (cleanup_stale_dag_hierarchies h ignore_objects sc) = None
     \<and> get_dag_objects_under_scene_root (snd (cleanup_stale_dag_hierarchies h ignore_objects sc))
         = filter (\<lambda>n. n \<in> set IGNORED_OBJECTS \<or> n \<in> (\<lambda>k. ''|'' @ k) ` set ignore_objects)
             (get_dag_objects_under_scene_root sc)"
proof -
  let ?top = "get_dag_objects_under_scene_root sc"
  let ?kept = "(\<lambda>k. ''|'' @ k) ` set ignore_objects"
  let ?names1 = "filter (\<lambda>n. n \<notin> set IGNORED_OBJECTS) ?top"
  let ?names2 = "filter (\<lambda>n. n \<notin> ?kept) ?names1"
  have di: "distinct IGNORED_OBJECTS" by (simp add: IGNORED_OBJECTS_def)
  have r1: "remove_ignored IGNORED_OBJECTS ?top = Inr ?names1"
    using di assms(1,2) by (rule remove_ignored_present)
  have r2: "remove_kept ignore_objects ?names1 = ?names2"
    using assms(2) by (intro remove_kept_filter) simp
  have cl: "cleanup_stale_dag_hierarchies h ignore_objects sc = delete_stale h ?names2 sc"
    by (simp add: cleanup_stale_dag_hierarchies_def r1 r2)
  have res: "MSelectionList_add h name = Inr [name]" if "name \<in> set ?names2" for name
    using assms(3) that by simp
  from delete_stale_resolved[of ?names2 h sc, OF res]
  have d: "fst (delete_stale h ?names2 sc) = None"
    "map node_path (snd (delete_stale h ?names2 sc)) = filter (\<lambda>p. p \<notin> set ?names2) (map node_path sc)"
    by auto
  have f: "filter (\<lambda>p. p \<notin> set ?names2) ?top
      = filter (\<lambda>n. n \<in> set IGNORED_OBJECTS \<or> n \<in> ?kept) ?top"
    by (rule filter_cong) auto
  have c1: "fst (cleanup_stale_dag_hierarchies h ignore_objects sc) = None"
    using cl d(1) by simp
  have c2: "get_dag_objects_under_scene_root (snd (cleanup_stale_dag_hierarchies h ignore_objects sc))
         = filter (\<lambda>n. n \<in> set IGNORED_OBJECTS \<or> n \<in> ?kept) ?top"
    using cl d(2) f by (simp add: get_dag_objects_under_scene_root_def)
  from c1 c2 show ?thesis by blast
qed

subsection \<open>Names and namespaces\<close>

lemma no_colon_all: "CHR '':'' \<notin> set name \<Longrightarrow> \<forall>c \<in> set (rev name). c \<noteq> CHR '':''"
  by auto

lemma remove_namespace_leaf: "remove_namespace name = leaf_name name"
proof (cases "dropWhile (\<lambda>c. c \<noteq> CHR '':'') (rev name)")
  case Nil
  then have all: "\<forall>c \<in> set (rev name). c \<noteq> CHR '':''"
    by (simp only: dropWhile_eq_Nil_conv)
  then have tw: "takeWhile (\<lambda>c. c \<noteq> CHR '':'') (rev name) = rev name"
    by (simp only: takeWhile_eq_all_conv)
  have hd: "name = [] \<or> hd name \<noteq> CHR '':''" using all by (cases name) auto
  have ns: "node_namespace name = []" by (simp only: node_namespace_def Nil list.sel rev.simps)
  have lf: "leaf_name name = name" by (simp only: leaf_name_def tw rev_rev_ident)
  show ?thesis
    unfolding remove_namespace_def ns lf using hd by (auto simp: setName_def)
next
  case (Cons c r)
  have "\<not> (hd (dropWhile (\<lambda>c. c \<noteq> CHR '':'') (rev name)) \<noteq> CHR '':'')"
    by (rule hd_dropWhile) (simp only: Cons, simp)
  then have c: "c = CHR '':''" by (simp only: Cons list.sel, simp)
  have "rev name = takeWhile (\<lambda>c. c \<noteq> CHR '':'') (rev name) @ dropWhile (\<lambda>c. c \<noteq> CHR '':'') (rev name)"
    by (rule takeWhile_dropWhile_id[symmetric])
  then have "rev name = takeWhile (\<lambda>c. c \<noteq> CHR '':'') (rev name) @ (CHR '':'' # r)"
    by (simp only: Cons c)
  then have "rev (rev name) = rev (takeWhile (\<lambda>c. c \<noteq> CHR '':'') (rev name) @ (CHR '':'' # r))"
    by (rule arg_cong)
  then have n: "name = rev r @ CHR '':'' # leaf_name name"
    by (simp only: rev_rev_ident rev_append rev.simps leaf_name_def append.simps append_assoc)
  have ns: "node_namespace name = rev r"
    by (simp only: node_namespace_def Cons list.sel)
  have "drop (length (rev r)) (rev r @ CHR '':'' # leaf_name name) = CHR '':'' # leaf_name name"
    by simp
  then have "drop (length (node_namespace name)) name = CHR '':'' # leaf_name name"
    using n ns by simp
  then show ?thesis by (simp add: remove_namespace_def setName_def)
qed

lemma leaf_no_colon: "CHR '':'' \<notin> set (leaf_name name)"
  by (auto simp: leaf_name_def dest: set_takeWhileD)

lemma leaf_plain: "CHR '':'' \<notin> set name \<Longrightarrow> leaf_name name = name"
proof -
  assume "CHR '':'' \<notin> set name"
  then have "\<forall>c \<in> set (rev name). c \<noteq> CHR '':''" by (rule no_colon_all)
  then have "takeWhile (\<lambda>c. c \<noteq> CHR '':'') (rev name) = rev name"
    by (simp only: takeWhile_eq_all_conv)
  then show ?thesis by (simp only: leaf_name_def rev_rev_ident)
qed

lemma leaf_leaf: "leaf_name (leaf_name name) = leaf_name name"
  by (rule leaf_plain) (rule leaf_no_colon)

lemma namespace_plain: "CHR '':'' \<notin> set name \<Longrightarrow> node_namespace name = []"
proof -
  assume "CHR '':'' \<notin> set name"
  then have "\<forall>c \<in> set (rev name). c \<noteq> CHR '':''" by (rule no_colon_all)
  then have "dropWhile (\<lambda>c. c \<noteq> CHR '':'') (rev name) = []"
    by (simp only: dropWhile_eq_Nil_conv)
  then show ?thesis by (simp only: node_namespace_def list.sel rev.simps)
qed

lemma stripped_step:
  "(if in_namespace ns (stripped visited name) then remove_namespace (stripped visited name)
    else stripped visited name) = stripped (visited @ [ns]) name"
  by (auto simp: stripped_def remove_namespace_leaf leaf_leaf)

lemma strip_objects_stripped:
  "strip_objects ns (map (stripped visited) names) = map (stripped (visited @ [ns])) names"
  by (simp add: strip_objects_def stripped_step)

lemma child_loop_stripped:
  "child_loop cs (map (stripped visited) names) = map (stripped (visited @ cs)) names"
proof (induction cs arbitrary: visited)
  case Nil
  show ?case by simp
next
  case (Cons c cs)
  show ?case using Cons.IH[of "visited @ [c]"] by (simp add: strip_objects_stripped)
qed

lemma namespace_loop_stripped:
  "namespace_loop t spaces (map (stripped visited) names)
     = map (stripped (visited @ visit_order t spaces)) names"
proof (induction spaces arbitrary: visited)
  case Nil
  show ?case by (simp add: visit_order_def)
next
  case (Cons ns spaces)
  show ?case
    using Cons.IH[of "(visited @ getNamespaces_recurse t ns) @ [ns]"]
    by (simp add: child_loop_stripped strip_objects_stripped visit_order_def)
qed

lemma stripped_nothing: "map (stripped []) names = names"
  by (induction names) (simp_all add: stripped_def)

lemma clean_namespaces_stripped:
  "clean_namespaces t names = map (stripped (visit_order t (get_scene_namespaces t))) names"
  using namespace_loop_stripped[of t "get_scene_namespaces t" "[]" names]
  by (simp add: clean_namespaces_def stripped_nothing)

lemma stripped_idem: "stripped visited (stripped visited name) = stripped visited name"
  by (auto simp: stripped_def leaf_leaf)

lemma stripped_plain: "CHR '':'' \<notin> set name \<Longrightarrow> stripped visited name = name"
  by (simp add: stripped_def leaf_plain)

lemma remove_present_filter:
  "distinct spaces \<Longrightarrow> remove_present xs spaces = filter (\<lambda>s. s \<notin> set xs) spaces"
proof (induction xs arbitrary: spaces)
  case Nil
  show ?case by simp
next
  case (Cons x xs)
  let ?spaces' = "filter (\<lambda>y. y \<noteq> x) spaces"
  have "(if x \<in> set spaces then remove1 x spaces else spaces) = ?spaces'"
    using Cons.prems by (simp add: remove1_filter filter_absent)
  then have "remove_present (x # xs) spaces = remove_present xs ?spaces'" by simp
  also have "\<dots> = filter (\<lambda>s. s \<notin> set xs) ?spaces'"
    using Cons.prems by (intro Cons.IH) simp
  also have "\<dots> = filter (\<lambda>s. s \<notin> set (x # xs)) spaces"
    by (induction spaces) auto
  finally show ?case .
qed

section \<open>The claims\<close>

subsection \<open>C1: the hierarchy is extended to the true root\<close>

text \<open>
  C1, as stated, fails: for the candidates \<open>Root\<close> and \<open>Spine\<close> of the skeleton
  \<open>Root \<rightarrow> Spine \<rightarrow> Arm \<rightarrow> Hand\<close> the planner chooses the hierarchy rooted at
  \<open>Spine\<close> and prepends the chain from \<open>Root\<close> to \<open>Spine\<close>, which ends with
  \<open>Spine\<close> again: the join point appears twice in the plan.
\<close>

theorem hierarchy_join_point_twice_counterexample:
  "plan_partition glove_host [''Root'', ''Spine''] glove_partition
     = Some (Inr (Some \<lparr>root = ''Spine'',
          hierarchy = [''|Root'', ''|Root|Spine'', ''|Root|Spine'', ''|Root|Spine|Arm'',
                       ''|Root|Spine|Arm|Hand'']\<rparr>))
   \<and> \<not> distinct [''|Root'', ''|Root|Spine'', ''|Root|Spine'', ''|Root|Spine|Arm'',
                  ''|Root|Spine|Arm|Hand'']"
proof
  show "plan_partition glove_host [''Root'', ''Spine''] glove_partition
     = Some (Inr (Some \<lparr>root = ''Spine'',
          hierarchy = [''|Root'', ''|Root|Spine'', ''|Root|Spine'', ''|Root|Spine|Arm'',
                       ''|Root|Spine|Arm|Hand'']\<rparr>))"
    by code_simp
  show "\<not> distinct [''|Root'', ''|Root|Spine'', ''|Root|Spine'', ''|Root|Spine|Arm'',
                  ''|Root|Spine|Arm|Hand'']"
    by simp
qed

text \<open>
  C1, amended. Every plan emitted carries the chosen hierarchy \<open>short\<close>, which is not
  empty and free of repetitions. With \<open>root_jnt\<close> the true root of its first joint:
  when \<open>root_jnt\<close> is among its elements the plan's hierarchy is \<open>short\<close> itself;
  otherwise it is the whole chain \<open>_get_joint_list(root_jnt, short[0])\<close> followed by
  \<open>short\<close>. A chain that is not empty begins at the true root and ends with the first
  joint of \<open>short\<close>, so that joint, the join point, appears twice in the plan's
  hierarchy.
\<close>

theorem hierarchy_prepends_whole_chain:
  assumes "plan_partition h jnt_roots d = Some (Inr (Some pl))"
  shows "\<exists>short first rest root_jnt.
       short = first # rest \<and> distinct short
     \<and> (\<exists>meshes items. skeletal_meshes d = Some meshes
           \<and> mesh_loop h jnt_roots meshes [] = Some (Inr items)
           \<and> shortest_loop items None = Some (root pl, short))
     \<and> get_root_joint h first = Some root_jnt
     \<and> (root_jnt \<in> set short \<longrightarrow> hierarchy pl = short)
     \<and> (root_jnt \<notin> set short \<longrightarrow>
          (\<exists>chain. get_joint_list h root_jnt first = Some (Inr chain)
             \<and> hierarchy pl = chain @ short
             \<and> (chain \<noteq> [] \<longrightarrow>
                  full_path_of h root_jnt = Some (hd (hierarchy pl))
                \<and> full_path_of h first = Some (last chain)
                \<and> (full_path_of h first = Some first \<longrightarrow> \<not> distinct (hierarchy pl)))))"
proof -
  from plan_partition_Some[OF assms] obtain meshes items short where
    m: "skeletal_meshes d = Some meshes"
    and ml: "mesh_loop h jnt_roots meshes [] = Some (Inr items)"
    and sel: "shortest_loop items None = Some (root pl, short)"
    and ext: "extend_to_root h short = Some (Inr (hierarchy pl))" by blast
  from shortest_loop_member[OF sel] have mem: "(root pl, short) \<in> set items" "short \<noteq> []" by auto
  from mesh_loop_distinct[OF ml] mem(1) have ds: "distinct short" by auto
  from mem(2) obtain first rest where sh: "short = first # rest" by (cases short) auto
  from ext sh obtain root_jnt where rj: "get_root_joint h first = Some root_jnt"
    by (auto simp: extend_to_root_def split: option.splits)
  have in_case: "hierarchy pl = short" if "root_jnt \<in> set short"
    using ext sh rj that by (auto simp: extend_to_root_def)
  have out_case: "\<exists>chain. get_joint_list h root_jnt first = Some (Inr chain)
             \<and> hierarchy pl = chain @ short
             \<and> (chain \<noteq> [] \<longrightarrow>
                  full_path_of h root_jnt = Some (hd (hierarchy pl))
                \<and> full_path_of h first = Some (last chain)
                \<and> (full_path_of h first = Some first \<longrightarrow> \<not> distinct (hierarchy pl)))"
    if "root_jnt \<notin> set short"
  proof -
    from ext sh rj that obtain chain where
      c: "get_joint_list h root_jnt first = Some (Inr chain)" and hp: "hierarchy pl = chain @ short"
      by (auto simp: extend_to_root_def dest!: bind_res_Inr)
    have "full_path_of h root_jnt = Some (hd (hierarchy pl))
        \<and> full_path_of h first = Some (last chain)
        \<and> (full_path_of h first = Some first \<longrightarrow> \<not> distinct (hierarchy pl))"
      if ne: "chain \<noteq> []"
    proof -
      from get_joint_list_ends[OF c ne]
      have e: "full_path_of h root_jnt = Some (hd chain)" "full_path_of h first = Some (last chain)"
        by auto
      have "\<not> distinct (hierarchy pl)" if "full_path_of h first = Some first"
      proof -
        from that e(2) have "last chain = first" by simp
        with ne have "first \<in> set chain" by (metis last_in_set)
        with hp sh show ?thesis by auto
      qed
      with e ne hp show ?thesis by simp
    qed
    with c hp show ?thesis by blast
  qed
  from sh ds m ml sel rj in_case out_case show ?thesis by blast
qed

theorem hierarchy_prepends_whole_chain_witness:
  "plan_partition glove_host [''Spine''] glove_partition
     = Some (Inr (Some \<lparr>root = ''Spine'',
          hierarchy = [''|Root'', ''|Root|Spine'', ''|Root|Spine'', ''|Root|Spine|Arm'',
                       ''|Root|Spine|Arm|Hand'']\<rparr>))
   \<and> (\<exists>short first rest root_jnt. short = first # rest \<and> distinct short
        \<and> get_root_joint glove_host first = Some root_jnt
        \<and> shortest_loop [(''Spine'', [''|Root|Spine'', ''|Root|Spine|Arm'', ''|Root|Spine|Arm|Hand''])] None
             = Some (''Spine'', short))"
proof -
  have ev: "plan_partition glove_host [''Spine''] glove_partition
     = Some (Inr (Some \<lparr>root = ''Spine'',
          hierarchy = [''|Root'', ''|Root|Spine'', ''|Root|Spine'', ''|Root|Spine|Arm'',
                       ''|Root|Spine|Arm|Hand'']\<rparr>))"
    by code_simp
  have ml: "mesh_loop glove_host [''Spine''] [''Glove''] []
     = Some (Inr [(''Spine'', [''|Root|Spine'', ''|Root|Spine|Arm'', ''|Root|Spine|Arm|Hand''])])"
    by code_simp
  have sm: "skeletal_meshes glove_partition = Some [''Glove'']" by (simp add: glove_partition_def)
  from hierarchy_prepends_whole_chain[OF ev] ml sm
  have "\<exists>short first rest root_jnt. short = first # rest \<and> distinct short
        \<and> get_root_joint glove_host first = Some root_jnt
        \<and> shortest_loop [(''Spine'', [''|Root|Spine'', ''|Root|Spine|Arm'', ''|Root|Spine|Arm|Hand''])] None
             = Some (''Spine'', short)"
    by (simp, blast)
  with ev show ?thesis by simp
qed

subsection \<open>C2: a failed export\<close>

text \<open>
  C2, as stated, fails: the \<open>except\<close> branch reports through \<open>cmds.error\<close>, which
  raises in Python. With two partitions whose exports would both succeed on their own,
  a failure of the first export ends the run with \<open>RuntimeError\<close>: the second
  partition is not processed and no file is written.
\<close>

theorem export_failure_ends_run_counterexample:
  "export_skeletal_mesh_partitions wardrobe_host
       (maya_exporter wardrobe_scene [''/out/rig_Glove.fbx'']) [''Root'']
       wardrobe_export_data ''rig_conditioned.ma'' new_session
     = (Some (Inl (RuntimeError
          ''Something wrong happened while export Partition Glove: Traceback (most recent call last)'')),
        glove_failed)
   \<and> exported glove_failed = []
   \<and> map fst (exported (snd (export_skeletal_mesh_partitions wardrobe_host
          (maya_exporter wardrobe_scene []) [''Root'']
          wardrobe_export_data ''rig_conditioned.ma'' new_session)))
     = [''/out/rig_Glove.fbx'', ''/out/rig_Boot.fbx'']"
  by code_simp

text \<open>
  C2, amended. When the export of a partition fails, after the partitions before it
  were processed without an exception, the failure is caught and handed, with the
  partition's name and the traceback, to \<open>cmds.error\<close>. When that call raises, its
  exception ends the loop: the remaining partitions are not processed. Processing goes
  on with the next partition only when the call returns. No file is recorded for the
  failed partition.
\<close>

theorem export_failure_ends_run:
  assumes "execute_loop x ed scene_path before st = (None, st1)"
    and "map_of (partitions ed) n = Some data"
    and "cmds_file_open x scene_path = Inr snapshot"
    and "prune_scene (skeletal_meshes data) (hierarchy pl) snapshot = (None, sc)"
    and "try_export x ed (hierarchy pl) (skeletal_meshes data)
           (os_path_join (file_path ed) (file_name ed @ ''_'' @ n @ ''.fbx''))
           (st1\<lparr>scene := sc, selection := []\<rparr>) = (Some e, st2)"
  shows "(cmds_error x (export_failed_msg x n e) = Some err
            \<longrightarrow> execute_loop x ed scene_path (before @ (n, Some pl) # rest) st = (Some err, st2))
     \<and> (cmds_error x (export_failed_msg x n e) = None
            \<longrightarrow> execute_loop x ed scene_path (before @ (n, Some pl) # rest) st
                = execute_loop x ed scene_path rest st2)
     \<and> exported st2 = exported st1"
proof -
  have part: "execute_partition x ed scene_path (n, Some pl) st1
      = (cmds_error x (export_failed_msg x n e), st2)"
    using assms(2-5) by (simp add: execute_partition_def)
  have loop: "execute_loop x ed scene_path (before @ (n, Some pl) # rest) st
      = (case cmds_error x (export_failed_msg x n e) of
           Some err' \<Rightarrow> (Some err', st2)
         | None \<Rightarrow> execute_loop x ed scene_path rest st2)"
    using assms(1) part by (simp add: execute_loop_append split: option.splits)
  have "exported st2 = exported (st1\<lparr>scene := sc, selection := []\<rparr>)"
    using assms(5) by (rule try_export_failed_exports_nothing)
  then have ex: "exported st2 = exported st1" by simp
  from loop ex show ?thesis by simp
qed

theorem export_failure_ends_run_witness:
  "execute_loop (maya_exporter wardrobe_scene [''/out/rig_Glove.fbx'']) wardrobe_export_data
       ''rig_conditioned.ma'' ([] @ (''Glove'', Some glove_plan) # [(''Boot'', Some boot_plan)])
       new_session
     = (Some (RuntimeError
          ''Something wrong happened while export Partition Glove: Traceback (most recent call last)''),
        glove_failed)
   \<and> exported glove_failed = exported new_session"
proof -
  let ?x = "maya_exporter wardrobe_scene [''/out/rig_Glove.fbx'']"
  let ?data = "\<lparr>enabled = True, skeletal_meshes = Some [''|Glove'']\<rparr>"
  have h1: "execute_loop ?x wardrobe_export_data ''rig_conditioned.ma'' [] new_session
      = (None, new_session)" by simp
  have h2: "map_of (partitions wardrobe_export_data) ''Glove'' = Some ?data"
    by (simp add: wardrobe_export_data_def)
  have h3: "cmds_file_open ?x ''rig_conditioned.ma'' = Inr wardrobe_scene"
    by (simp add: maya_exporter_def)
  have h4: "prune_scene (skeletal_meshes ?data) (hierarchy glove_plan) wardrobe_scene
      = (None, [Node ''|Root'' Joint [Node ''|Root|Spine'' Joint [Node ''|Root|Spine|Arm'' Joint
                  [Node ''|Root|Spine|Arm|Hand'' Joint []]]],
                Node ''|Glove'' Mesh []])"
    by code_simp
  have h5: "try_export ?x wardrobe_export_data (hierarchy glove_plan) (skeletal_meshes ?data)
           (os_path_join (file_path wardrobe_export_data)
              (file_name wardrobe_export_data @ ''_'' @ ''Glove'' @ ''.fbx''))
           (new_session\<lparr>scene := [Node ''|Root'' Joint [Node ''|Root|Spine'' Joint
                  [Node ''|Root|Spine|Arm'' Joint [Node ''|Root|Spine|Arm|Hand'' Joint []]]],
                Node ''|Glove'' Mesh []], selection := []\<rparr>)
      = (Some (RuntimeError ''FBXExport failed''), glove_failed)"
    by code_simp
  have h6: "cmds_error ?x (export_failed_msg ?x ''Glove'' (RuntimeError ''FBXExport failed''))
      = Some (RuntimeError
          ''Something wrong happened while export Partition Glove: Traceback (most recent call last)'')"
    by code_simp
  from export_failure_ends_run[OF h1 h2 h3 h4 h5, of _ "[(''Boot'', Some boot_plan)]"] h6
  show ?thesis by simp
qed

subsection \<open>C3: resolution misses\<close>

text \<open>
  C3. Two operations of the scene clean-up raise on a name that does not resolve, each
  beside code that shows the skip was meant. \<open>_parent_to_root\<close> adds the name to a
  selection list outside any \<open>try\<close>: for a keep path that names no node \<open>add\<close>
  raises, and the test \<open>length() != 1\<close> that would skip the name is not reached (first
  equation). \<open>_cleanup_stale_dag_hierarchies\<close> removes the fixed names from the list of
  top-level objects with a bare \<open>list.remove\<close>, which raises \<open>ValueError\<close> when one
  of them is not a child of the world, as in a scene whose cameras were grouped (second
  equation); the sibling loop two lines below removes the keep paths inside \<open>try\<close>
  and skips the one that is missing (third equation).
\<close>

theorem resolution_miss_raises_where_unguarded:
  "parent_to_root imported_host ''Missing'' imported_scene
     = (Some (RuntimeError ''(kInvalidParameter): Object does not exist''), imported_scene)
   \<and> cleanup_stale_dag_hierarchies (scene_host grouped_cameras_scene []) [''Root'']
        grouped_cameras_scene = (Some ValueError, grouped_cameras_scene)
   \<and> cleanup_stale_dag_hierarchies imported_host [''Body'', ''Missing''] imported_scene
     = (None, [Node ''|persp'' Transform [], Node ''|top'' Transform [],
               Node ''|front'' Transform [], Node ''|side'' Transform [],
               Node ''|Body'' Mesh []])"
  by code_simp

subsection \<open>C4: the shortest induced hierarchy, first seen on ties\<close>

text \<open>
  C4, as stated, fails: the planner compares the lengths of the induced hierarchies, and
  the upward walk of \<open>_get_joint_list\<close> appends every parent it meets, joint or not.
  Below, the hierarchy of the candidate \<open>Tail\<close> has two joints and two transforms, four
  entries, and that of \<open>Hips\<close> three joints: the planner chooses \<open>Hips\<close>, the
  candidate with more joints.
\<close>

theorem shortest_list_not_fewest_joints_counterexample:
  "mesh_loop buffered_host [''Tail'', ''Hips''] [''Body''] []
     = Some (Inr [(''Tail'', [''|Tail'', ''|Tail|offset_a'', ''|Tail|offset_a|offset_b'',
                              ''|Tail|offset_a|offset_b|Tip'']),
                  (''Hips'', [''|Hips'', ''|Hips|Leg'', ''|Hips|Leg|Foot''])])
   \<and> joint_count buffered_scene [''|Tail'', ''|Tail|offset_a'', ''|Tail|offset_a|offset_b'',
                                  ''|Tail|offset_a|offset_b|Tip''] = 2
   \<and> joint_count buffered_scene [''|Hips'', ''|Hips|Leg'', ''|Hips|Leg|Foot''] = 3
   \<and> plan_partition buffered_host [''Tail'', ''Hips''] body_partition
     = Some (Inr (Some \<lparr>root = ''Hips'', hierarchy = [''|Hips'', ''|Hips|Leg'', ''|Hips|Leg|Foot'']\<rparr>))"
  by code_simp

text \<open>
  C4, amended. For a partition whose candidates have the induced hierarchies
  \<open>joint_hierarchy\<close>, at least one of them not empty, the planner chooses the candidate
  whose induced hierarchy is the shortest list, every entry counted, and the first such
  candidate in the order of \<open>jnt_roots\<close> on a tie: its hierarchy is not empty, strictly
  shorter than every non-empty one before it and no longer than any non-empty one after
  it. The plan of the partition is built from that choice: the candidate is its root and
  the chosen hierarchy, extended to the true root, its hierarchy; the partition is not
  skipped. Where every entry of the hierarchies is a joint, the chosen hierarchy has the
  fewest joints.
\<close>

theorem shortest_candidate_first_seen:
  assumes "skeletal_meshes d = Some meshes"
    and "mesh_loop h jnt_roots meshes [] = Some (Inr joint_hierarchy)"
    and "(c0, jh0) \<in> set joint_hierarchy" and "jh0 \<noteq> []"
  shows "\<exists>c jh. shortest_loop joint_hierarchy None = Some (c, jh)
       \<and> first_shortest joint_hierarchy c jh
       \<and> (distinct jnt_roots \<longrightarrow> map fst joint_hierarchy = jnt_roots)
       \<and> plan_partition h jnt_roots d
           = bind_res (extend_to_root h jh)
               (\<lambda>final. Some (Inr (Some \<lparr>root = c, hierarchy = final\<rparr>)))
       \<and> plan_partition h jnt_roots d \<noteq> Some (Inr None)
       \<and> (\<forall>pl. plan_partition h jnt_roots d = Some (Inr (Some pl))
             \<longrightarrow> root pl = c \<and> (\<exists>chain. hierarchy pl = chain @ jh))
       \<and> (\<forall>sc. (\<forall>(c', jh') \<in> set joint_hierarchy. set jh' \<subseteq> set (joint_paths sc))
             \<longrightarrow> (\<forall>(c', jh') \<in> set joint_hierarchy.
                    jh' \<noteq> [] \<longrightarrow> joint_count sc jh \<le> joint_count sc jh'))"
proof -
  from shortest_loop_None[OF assms(3,4)] obtain c jh where
    sel: "shortest_loop joint_hierarchy None = Some (c, jh)"
    and fs: "first_shortest joint_hierarchy c jh" by blast
  have "meshes \<noteq> []" using assms(2,3) by auto
  then have order: "distinct jnt_roots \<longrightarrow> map fst joint_hierarchy = jnt_roots"
    using mesh_loop_candidate_order[OF assms(2)] by blast
  have eq: "plan_partition h jnt_roots d
      = bind_res (extend_to_root h jh) (\<lambda>final. Some (Inr (Some \<lparr>root = c, hierarchy = final\<rparr>)))"
    using assms(1,2) sel by (simp add: plan_partition_def)
  have nonone: "plan_partition h jnt_roots d \<noteq> Some (Inr None)"
    using assms(1,2) sel
    by (auto simp: plan_partition_def bind_res_def split: option.splits sum.splits)
  have pl: "root pl = c \<and> (\<exists>chain. hierarchy pl = chain @ jh)"
    if "plan_partition h jnt_roots d = Some (Inr (Some pl))" for pl
  proof -
    from plan_partition_Some[OF that] assms(1,2) sel
    have r: "root pl = c" and e: "extend_to_root h jh = Some (Inr (hierarchy pl))" by auto
    from e have "\<exists>chain. chain @ jh = hierarchy pl"
      by (auto simp: extend_to_root_def split: list.splits option.splits if_splits
               dest!: bind_res_Inr)
    then have "\<exists>chain. hierarchy pl = chain @ jh" by metis
    with r show ?thesis by simp
  qed
  have jc: "\<forall>(c', jh') \<in> set joint_hierarchy. jh' \<noteq> [] \<longrightarrow> joint_count sc jh \<le> joint_count sc jh'"
    if all: "\<forall>(c', jh') \<in> set joint_hierarchy. set jh' \<subseteq> set (joint_paths sc)" for sc
  proof -
    have "joint_count sc jh \<le> joint_count sc jh'"
      if m: "(c', jh') \<in> set joint_hierarchy" and ne: "jh' \<noteq> []" for c' jh'
    proof -
      from all m have "set jh' \<subseteq> set (joint_paths sc)" by auto
      then have 1: "joint_count sc jh' = length jh'" by (rule joint_count_all)
      from all first_shortest_member[OF fs] have "set jh \<subseteq> set (joint_paths sc)" by auto
      then have 2: "joint_count sc jh = length jh" by (rule joint_count_all)
      from first_shortest_least[OF fs m ne] 1 2 show ?thesis by simp
    qed
    then show ?thesis by auto
  qed
  from sel fs order eq nonone pl jc show ?thesis by blast
qed

theorem shortest_candidate_first_seen_witness:
  "mesh_loop sword_host [''Hips'', ''Chest'', ''Prop''] [''Body''] [] = Some (Inr sword_hierarchies)
   \<and> map (\<lambda>(c, jh). length jh) sword_hierarchies = [5, 3, 3]
   \<and> shortest_loop sword_hierarchies None
       = Some (''Chest'', [''|Hips|Spine|Chest'', ''|Hips|Spine|Chest|Arm'', ''|Hips|Spine|Chest|Arm|Hand''])
   \<and> first_shortest sword_hierarchies ''Chest''
        [''|Hips|Spine|Chest'', ''|Hips|Spine|Chest|Arm'', ''|Hips|Spine|Chest|Arm|Hand'']
   \<and> plan_partition sword_host [''Hips'', ''Chest'', ''Prop''] body_partition
       = Some (Inr (Some \<lparr>root = ''Chest'',
            hierarchy = [''|Hips'', ''|Hips|Spine'', ''|Hips|Spine|Chest'', ''|Hips|Spine|Chest'',
                         ''|Hips|Spine|Chest|Arm'', ''|Hips|Spine|Chest|Arm|Hand'']\<rparr>))
   \<and> map (\<lambda>(c, jh). joint_count sword_scene jh) sword_hierarchies = [5, 3, 3]"
proof -
  let ?chest = "[''|Hips|Spine|Chest'', ''|Hips|Spine|Chest|Arm'', ''|Hips|Spine|Chest|Arm|Hand'']"
  have h1: "skeletal_meshes body_partition = Some [''Body'']"
    by (simp add: body_partition_def)
  have h2: "mesh_loop sword_host [''Hips'', ''Chest'', ''Prop''] [''Body''] [] = Some (Inr sword_hierarchies)"
    by code_simp
  have h3: "(''Prop'', [''|Prop'', ''|Prop|Handle'', ''|Prop|Handle|Blade'']) \<in> set sword_hierarchies"
    by (simp add: sword_hierarchies_def)
  have h4: "[''|Prop'', ''|Prop|Handle'', ''|Prop|Handle|Blade''] \<noteq> []" by simp
  have ev: "shortest_loop sword_hierarchies None = Some (''Chest'', ?chest)"
    by (simp add: sword_hierarchies_def)
  have len: "map (\<lambda>(c, jh). length jh) sword_hierarchies = [5, 3, 3]"
    by (simp add: sword_hierarchies_def)
  have ext: "extend_to_root sword_host ?chest
      = Some (Inr [''|Hips'', ''|Hips|Spine'', ''|Hips|Spine|Chest'', ''|Hips|Spine|Chest'',
                   ''|Hips|Spine|Chest|Arm'', ''|Hips|Spine|Chest|Arm|Hand''])"
    by code_simp
  have cnt: "map (\<lambda>(c, jh). joint_count sword_scene jh) sword_hierarchies = [5, 3, 3]"
    by code_simp
  from shortest_candidate_first_seen[OF h1 h2 h3 h4] ev
  have fs: "first_shortest sword_hierarchies ''Chest'' ?chest"
    and pp: "plan_partition sword_host [''Hips'', ''Chest'', ''Prop''] body_partition
       = bind_res (extend_to_root sword_host ?chest)
           (\<lambda>final. Some (Inr (Some \<lparr>root = ''Chest'', hierarchy = final\<rparr>)))"
    by auto
  from pp ext have "plan_partition sword_host [''Hips'', ''Chest'', ''Prop''] body_partition
       = Some (Inr (Some \<lparr>root = ''Chest'',
            hierarchy = [''|Hips'', ''|Hips|Spine'', ''|Hips|Spine|Chest'', ''|Hips|Spine|Chest'',
                         ''|Hips|Spine|Chest|Arm'', ''|Hips|Spine|Chest|Arm|Hand'']\<rparr>))"
    by simp
  with h2 len ev fs cnt show ?thesis by simp
qed

subsection \<open>C5: every partition starts from the reloaded snapshot\<close>

text \<open>
  C5. When the partitions before it have been processed without an exception, a
  partition is processed on the scene file opened anew: the scene it leaves is the
  pruning of the snapshot by its own mesh list and hierarchy, and its processing is the
  same whatever scene and selection the partitions before it left behind. Nothing
  deleted for an earlier partition is missing from it.
\<close>

theorem partition_reload_isolation:
  assumes "cmds_file_open x scene_path = Inr snapshot"
    and "execute_loop x ed scene_path before st = (None, st1)"
    and "map_of (partitions ed) n = Some data"
  shows "execute_loop x ed scene_path (before @ [(n, Some pl)]) st
       = execute_partition x ed scene_path (n, Some pl) st1
     \<and> scene (snd (execute_partition x ed scene_path (n, Some pl) st1))
       = snd (prune_scene (skeletal_meshes data) (hierarchy pl) snapshot)
     \<and> (\<forall>sc sel. execute_partition x ed scene_path (n, Some pl) (st1\<lparr>scene := sc, selection := sel\<rparr>)
           = execute_partition x ed scene_path (n, Some pl) st1)"
proof -
  have a: "execute_loop x ed scene_path (before @ [(n, Some pl)]) st
       = execute_partition x ed scene_path (n, Some pl) st1"
    using assms(2) by (auto simp: execute_loop_append split: prod.splits option.splits)
  obtain out sc where p: "prune_scene (skeletal_meshes data) (hierarchy pl) snapshot = (out, sc)"
    by (cases "prune_scene (skeletal_meshes data) (hierarchy pl) snapshot")
  let ?path = "os_path_join (file_path ed) (file_name ed @ ''_'' @ n @ ''.fbx'')"
  have b: "scene (snd (execute_partition x ed scene_path (n, Some pl) st1)) = sc"
  proof (cases out)
    case (Some e)
    then show ?thesis using assms(1,3) p by (simp add: execute_partition_def)
  next
    case None
    have "scene (snd (try_export x ed (hierarchy pl) (skeletal_meshes data) ?path
             (st1\<lparr>scene := sc, selection := []\<rparr>))) = sc"
      by (simp add: try_export_scene)
    then show ?thesis using assms(1,3) p None
      by (auto simp: execute_partition_def split: prod.splits option.splits)
  qed
  have c: "execute_partition x ed scene_path (n, Some pl) (st1\<lparr>scene := sc', selection := sel\<rparr>)
           = execute_partition x ed scene_path (n, Some pl) st1" for sc' sel
  proof -
    have u: "st1\<lparr>scene := sc', selection := sel, scene := a, selection := []\<rparr>
        = st1\<lparr>scene := a, selection := []\<rparr>" for a
      by simp
    show ?thesis
    proof (cases out)
      case None
      then show ?thesis using assms(1,3) p by (simp add: execute_partition_def u)
    next
      case (Some e)
      then show ?thesis using assms(1,3) p by (simp add: execute_partition_def u)
    qed
  qed
  from a b c p show ?thesis by simp
qed

theorem partition_reload_isolation_witness:
  "scene (snd (execute_loop (maya_exporter wardrobe_scene []) wardrobe_export_data
                 ''rig_conditioned.ma'' ([(''Glove'', Some glove_plan)] @ [(''Boot'', Some boot_plan)])
                 new_session))
     = [Node ''|Root'' Joint [Node ''|Root|Leg'' Joint [Node ''|Root|Leg|Foot'' Joint []]],
        Node ''|Boot'' Mesh []]"
proof -
  let ?x = "maya_exporter wardrobe_scene []"
  have h1: "cmds_file_open ?x ''rig_conditioned.ma'' = Inr wardrobe_scene"
    by (simp add: maya_exporter_def)
  have h2: "execute_loop ?x wardrobe_export_data ''rig_conditioned.ma'' [(''Glove'', Some glove_plan)]
              new_session
      = (None,
         \<lparr>scene = [Node ''|Root'' Joint [Node ''|Root|Spine'' Joint [Node ''|Root|Spine|Arm'' Joint
                      [Node ''|Root|Spine|Arm|Hand'' Joint []]]],
                    Node ''|Glove'' Mesh []],
          selection = [''|Root'', ''|Root|Spine'', ''|Root|Spine|Arm'', ''|Root|Spine|Arm|Hand'',
                       ''|Glove''],
          exported = [(''/out/rig_Glove.fbx'',
                       [''|Root'', ''|Root|Spine'', ''|Root|Spine|Arm'', ''|Root|Spine|Arm|Hand'',
                        ''|Glove''],
                       [Node ''|Root'' Joint [Node ''|Root|Spine'' Joint [Node ''|Root|Spine|Arm'' Joint
                          [Node ''|Root|Spine|Arm|Hand'' Joint []]]],
                        Node ''|Glove'' Mesh []])]\<rparr>)"
    by code_simp
  have h3: "map_of (partitions wardrobe_export_data) ''Boot''
      = Some \<lparr>enabled = True, skeletal_meshes = Some [''|Boot'']\<rparr>"
    by (simp add: wardrobe_export_data_def)
  have ev: "snd (prune_scene (skeletal_meshes \<lparr>enabled = True, skeletal_meshes = Some [''|Boot'']\<rparr>)
                  (hierarchy boot_plan) wardrobe_scene)
      = [Node ''|Root'' Joint [Node ''|Root|Leg'' Joint [Node ''|Root|Leg|Foot'' Joint []]],
         Node ''|Boot'' Mesh []]"
    by code_simp
  from partition_reload_isolation[OF h1 h2 h3, of boot_plan] ev show ?thesis by simp
qed

subsection \<open>C6: what the deletions of a partition remove\<close>

text \<open>
  C6, as stated, fails: deleting a mesh that is not in the partition's mesh list removes
  its subtree, and a mesh of the list that is parented under it goes with it. In the
  scene below \<open>|Body|Glove\<close> is in the mesh list and \<open>|Body\<close> is not; the loops end
  without an exception and the glove is gone.
\<close>

theorem prune_cascade_removes_member_counterexample:
  "prune_scene (Some [''|Body|Glove'']) (hierarchy glove_plan) layered_scene
     = (None,
        [Node ''|Root'' Joint
           [Node ''|Root|Spine'' Joint
              [Node ''|Root|Spine|Arm'' Joint
                 [Node ''|Root|Spine|Arm|Hand'' Joint []]]]])
   \<and> ''|Body|Glove'' \<in> set (paths layered_scene)
   \<and> ''|Body|Glove'' \<notin> set (paths
         [Node ''|Root'' Joint
           [Node ''|Root|Spine'' Joint
              [Node ''|Root|Spine|Arm'' Joint
                 [Node ''|Root|Spine|Arm|Hand'' Joint []]]]])"
  by code_simp

text \<open>
  C6, amended. In a scene whose nodes have distinct paths, the deletions hand to
  \<open>cmds.delete\<close> only meshes outside the mesh list and joints outside the hierarchy,
  and what they remove is those nodes with their subtrees: every node that has no such
  node among itself and its ancestors is still in the scene when the loops end, whether
  they complete or stop at an exception, and nothing is added. When both loops complete,
  the scene is exactly the snapshot without those subtrees. So a member of the
  hierarchy or of the mesh list is removed only if it, or one of its ancestors, is a
  mesh outside the mesh list or a joint outside the hierarchy.
\<close>

theorem prune_keeps_sheltered_members:
  assumes "distinct (paths snapshot)"
    and "prune_scene (Some meshes) joints snapshot = (outcome, sc)"
  shows "set (paths (cut_subtrees (excluded meshes joints) snapshot)) \<subseteq> set (paths sc)
     \<and> set (paths sc) \<subseteq> set (paths snapshot)
     \<and> (outcome = None \<longrightarrow> sc = cut_subtrees (excluded meshes joints) snapshot)"
proof -
  let ?D = "excluded meshes joints"
  let ?names1 = "get_all_mesh_dag_objects snapshot"
  obtain out1 sc1 where l1: "delete_loop (Some meshes) ?names1 snapshot = (out1, sc1)"
    by (cases "delete_loop (Some meshes) ?names1 snapshot")
  have uniq: "k = k'" if "(p, k) \<in> set (labels snapshot)" "(p, k') \<in> set (labels snapshot)" for p k k'
    using kind_unique[OF assms(1) that] .
  have h1: "?D name k"
    if "name \<in> set ?names1" "name \<notin> set meshes" "(name, k) \<in> set (labels snapshot)" for name k
  proof -
    from that(1) have "(name, Mesh) \<in> set (labels snapshot)" by (simp add: mesh_objects_labels)
    with that(3) have "k = Mesh" by (rule uniq[OF _ _])
    with that(2) show ?thesis by (simp add: excluded_def)
  qed
  from delete_loop_keeps[of ?names1 meshes snapshot ?D, OF h1] l1
  have c1: "cut_subtrees ?D sc1 = cut_subtrees ?D snapshot"
    and s1: "set (labels sc1) \<subseteq> set (labels snapshot)" by auto
  let ?names2 = "rev (get_all_joint_dag_objects sc1)"
  obtain out2 sc2 where l2: "delete_loop (Some joints) ?names2 sc1 = (out2, sc2)"
    by (cases "delete_loop (Some joints) ?names2 sc1")
  have h2: "?D name k"
    if "name \<in> set ?names2" "name \<notin> set joints" "(name, k) \<in> set (labels sc1)" for name k
  proof -
    from that(1) have "(name, Joint) \<in> set (labels sc1)" by (simp add: joint_objects_labels)
    with that(3) s1 have "k = Joint" by (intro uniq[of name k Joint]) auto
    with that(2) show ?thesis by (simp add: excluded_def)
  qed
  from delete_loop_keeps[of ?names2 joints sc1 ?D, OF h2] l2
  have c2: "cut_subtrees ?D sc2 = cut_subtrees ?D sc1"
    and s2: "set (labels sc2) \<subseteq> set (labels sc1)" by auto
  have res: "(outcome, sc) = (if out1 = None then (out2, sc2) else (out1, sc1))"
    using assms(2) l1 l2 by (auto simp: prune_scene_def split: option.splits)
  have cut: "cut_subtrees ?D sc = cut_subtrees ?D snapshot"
    using res c1 c2 by (auto split: if_splits)
  have sub: "set (labels sc) \<subseteq> set (labels snapshot)"
    using res s1 s2 by (auto split: if_splits)
  have a: "set (paths (cut_subtrees ?D snapshot)) \<subseteq> set (paths sc)"
    using paths_cut_subset[of ?D sc] cut by simp
  have b: "set (paths sc) \<subseteq> set (paths snapshot)"
    using sub by (auto simp: paths_labels)
  have c: "sc = cut_subtrees ?D snapshot" if "outcome = None"
  proof -
    from that res have o: "out1 = None" "out2 = None" "sc = sc2" by (auto split: if_splits)
    have "\<not> ?D p k" if pk: "(p, k) \<in> set (labels sc2)" for p k
    proof
      assume "?D p k"
      then consider "k = Mesh" "p \<notin> set meshes" | "k = Joint" "p \<notin> set joints"
        by (auto simp: excluded_def)
      then show False
      proof cases
        case 1
        with pk s2 s1 have "p \<in> set ?names1" by (auto simp: mesh_objects_labels)
        from delete_loop_done[OF l1[unfolded o(1)] this 1(2)] have "p \<notin> set (paths sc1)" .
        moreover from pk s2 have "p \<in> set (paths sc1)" by (force simp: paths_labels)
        ultimately show False by simp
      next
        case 2
        with pk s2 have "p \<in> set ?names2" by (auto simp: joint_objects_labels)
        from delete_loop_done[OF l2[unfolded o(2)] this 2(2)] have "p \<notin> set (paths sc2)" .
        moreover from pk have "p \<in> set (paths sc2)" by (force simp: paths_labels)
        ultimately show False by simp
      qed
    qed
    then have "cut_subtrees ?D sc2 = sc2" by (intro cut_nothing) auto
    with cut o(3) show ?thesis by simp
  qed
  from a b c show ?thesis by blast
qed

theorem prune_keeps_sheltered_members_witness:
  "distinct (paths wardrobe_scene)
   \<and> prune_scene (Some [''|Boot'']) (hierarchy boot_plan) wardrobe_scene
       = (None, cut_subtrees (excluded [''|Boot''] (hierarchy boot_plan)) wardrobe_scene)
   \<and> cut_subtrees (excluded [''|Boot''] (hierarchy boot_plan)) wardrobe_scene
       = [Node ''|Root'' Joint [Node ''|Root|Leg'' Joint [Node ''|Root|Leg|Foot'' Joint []]],
          Node ''|Boot'' Mesh []]"
proof -
  have d: "distinct (paths wardrobe_scene)" by code_simp
  have ev: "prune_scene (Some [''|Boot'']) (hierarchy boot_plan) wardrobe_scene
       = (None, [Node ''|Root'' Joint [Node ''|Root|Leg'' Joint [Node ''|Root|Leg|Foot'' Joint []]],
                 Node ''|Boot'' Mesh []])"
    by code_simp
  from prune_keeps_sheltered_members[OF d ev] d ev show ?thesis by simp
qed

subsection \<open>C7: an ancestry inconsistency is fatal\<close>



subsection \<open>C8: unrelated joints give the empty chain\<close>

text \<open>
  C8. The check of lines 528-536 is written to return the empty list when the end joint
  is not in the hierarchy of the start joint, and does so when the start joint has
  descendants (\<open>Spine\<close> and \<open>Prop\<close>, third equation from the end). For a start joint
  without descendants \<open>cmds.listRelatives\<close> returns \<open>None\<close>, which the code hands to
  \<open>cmds.ls\<close> as it is. With \<open>Prop\<close>, a joint without children, as the start and the
  unrelated \<open>Hand\<close> as the end: when \<open>ls\<close> then lists the joints of the scene, the
  membership check passes, the upward walk from \<open>Hand\<close> leaves the hierarchy and the
  exception of line 543 is raised; when \<open>ls\<close> refuses \<open>None\<close>, its exception is
  raised. Either way the call does not return the empty chain, and the pass that made
  it is aborted.
\<close>

theorem leaf_start_joint_raises:
  "full_path_of glove_host ''Prop'' = Some ''|Prop''
   \<and> full_path_of glove_host ''Hand'' = Some ''|Root|Spine|Arm|Hand''
   \<and> ''|Root|Spine|Arm|Hand'' \<notin> set (descendants glove_scene ''|Prop'')
   \<and> listRelatives_ad glove_host ''|Prop'' = None
   \<and> get_joint_list glove_host ''Prop'' ''Hand''
       = Some (Inl (Exception (found_root_msg ''|Prop'')))
   \<and> get_joint_list strict_glove_host ''Prop'' ''Hand'' = Some (Inl TypeError)
   \<and> get_joint_list glove_host ''Spine'' ''Prop'' = Some (Inr [])
   \<and> get_joint_list strict_glove_host ''Spine'' ''Prop'' = Some (Inr [])
   \<and> export_skeletal_mesh_partitions glove_host (maya_exporter glove_scene []) [''Prop'']
        glove_export_data ''rig_conditioned.ma'' new_session
       = (Some (Inl (Exception (found_root_msg ''|Prop''))), new_session)"
  by code_simp

subsection \<open>C9: namespace stripping is idempotent\<close>

text \<open>
  C9. Running \<open>_clean_namespaces\<close> twice gives what running it once gives. When the
  scene has only reserved namespaces, \<open>_get_scene_namespaces\<close> is empty and the pass
  renames nothing. \<open>_remove_namespace\<close> leaves a name without namespace as it is, and
  so does the whole pass when no name has one.
\<close>

theorem clean_namespaces_idempotent:
  "clean_namespaces t (clean_namespaces t names) = clean_namespaces t names
   \<and> (distinct (getNamespaces t) \<and> set (getNamespaces t) \<subseteq> set IGNORED_NAMESPACES
        \<longrightarrow> get_scene_namespaces t = [] \<and> clean_namespaces t names = names)
   \<and> (CHR '':'' \<notin> set name \<longrightarrow> remove_namespace name = name)
   \<and> ((\<forall>n \<in> set names. CHR '':'' \<notin> set n) \<longrightarrow> clean_namespaces t names = names)"
proof -
  have a: "clean_namespaces t (clean_namespaces t names) = clean_namespaces t names"
    by (simp add: clean_namespaces_stripped stripped_idem)
  have b: "get_scene_namespaces t = [] \<and> clean_namespaces t names = names"
    if "distinct (getNamespaces t) \<and> set (getNamespaces t) \<subseteq> set IGNORED_NAMESPACES"
  proof -
    from that have "get_scene_namespaces t
        = filter (\<lambda>s. s \<notin> set IGNORED_NAMESPACES) (getNamespaces t)"
      by (simp add: get_scene_namespaces_def remove_present_filter)
    also have "\<dots> = []" using that by (auto simp: filter_empty_conv)
    finally have e: "get_scene_namespaces t = []" .
    then show ?thesis by (simp add: clean_namespaces_def)
  qed
  have c: "remove_namespace name = name" if "CHR '':'' \<notin> set name"
    using that by (simp add: remove_namespace_leaf leaf_plain)
  have d: "clean_namespaces t names = names" if "\<forall>n \<in> set names. CHR '':'' \<notin> set n"
    using that by (simp add: clean_namespaces_stripped stripped_plain map_idI)
  from a b c d show ?thesis by blast
qed

theorem clean_namespaces_idempotent_witness:
  "clean_namespaces rig_namespaces [''rig:Root'', ''rig:fx:Spark'', ''persp'', ''UI:button'']
     = [''Root'', ''Spark'', ''persp'', ''UI:button'']
   \<and> clean_namespaces rig_namespaces [''Root'', ''Spark'', ''persp'', ''UI:button'']
     = [''Root'', ''Spark'', ''persp'', ''UI:button'']
   \<and> get_scene_namespaces stripped_namespaces = []
   \<and> clean_namespaces stripped_namespaces [''Root'', ''UI:button''] = [''Root'', ''UI:button'']
   \<and> remove_namespace ''persp'' = ''persp''"
proof -
  have ev: "clean_namespaces rig_namespaces [''rig:Root'', ''rig:fx:Spark'', ''persp'', ''UI:button'']
     = [''Root'', ''Spark'', ''persp'', ''UI:button'']"
    by code_simp
  have h: "distinct (getNamespaces stripped_namespaces)
      \<and> set (getNamespaces stripped_namespaces) \<subseteq> set IGNORED_NAMESPACES"
    by code_simp
  have p: "CHR '':'' \<notin> set ''persp''" by simp
  from clean_namespaces_idempotent[of rig_namespaces
      "[''rig:Root'', ''rig:fx:Spark'', ''persp'', ''UI:button'']" "''persp''"] ev p
  have 1: "clean_namespaces rig_namespaces [''Root'', ''Spark'', ''persp'', ''UI:button'']
     = [''Root'', ''Spark'', ''persp'', ''UI:button'']"
    and 3: "remove_namespace ''persp'' = ''persp''"
    by simp_all
  from clean_namespaces_idempotent[of stripped_namespaces "[''Root'', ''UI:button'']" "''persp''"] h
  have 2: "get_scene_namespaces stripped_namespaces = []"
    "clean_namespaces stripped_namespaces [''Root'', ''UI:button''] = [''Root'', ''UI:button'']"
    by simp_all
  from ev 1 2 3 show ?thesis by simp
qed

subsection \<open>C10: an enabled partition without a mesh list\<close>

text \<open>
  C10. An enabled partition whose \<open>skeletal_meshes\<close> key is absent is not skipped:
  iterating \<open>None\<close> raises \<open>TypeError\<close>, which nothing catches, so the whole pass
  ends with it once the partitions before it have been planned, and nothing is exported.
\<close>

theorem missing_mesh_list_aborts:
  assumes "enabled d" and "skeletal_meshes d = None"
    and "partitions ed = before @ (n, d) # rest"
    and "partition_loop h jnt_roots before [] = Some (Inr partitions_data)"
  shows "plan_partition h jnt_roots d = Some (Inl TypeError)
     \<and> export_skeletal_mesh_partitions h x jnt_roots ed scene_path st
         = (Some (Inl TypeError), st)"
proof -
  have "partition_loop h jnt_roots (partitions ed) [] = Some (Inl TypeError)"
    unfolding assms(3) using assms(1,2,4) by (rule partition_loop_no_meshes)
  moreover have "partitions ed \<noteq> []" using assms(3) by simp
  ultimately show ?thesis
    using assms(2) by (simp add: export_skeletal_mesh_partitions_def plan_partition_no_meshes)
qed

theorem missing_mesh_list_aborts_witness:
  "export_skeletal_mesh_partitions glove_host (maya_exporter glove_scene []) [''Root'']
     meshless_export_data ''rig_conditioned.ma'' new_session
   = (Some (Inl TypeError), new_session)"
proof -
  have h1: "enabled \<lparr>enabled = True, skeletal_meshes = None\<rparr>" by simp
  have h2: "skeletal_meshes \<lparr>enabled = True, skeletal_meshes = None\<rparr> = None" by simp
  have h3: "partitions meshless_export_data
      = [(''Glove'', glove_partition)] @ (''Cape'', \<lparr>enabled = True, skeletal_meshes = None\<rparr>) # []"
    by (simp add: meshless_export_data_def)
  have h4: "partition_loop glove_host [''Root''] [(''Glove'', glove_partition)] []
      = Some (Inr [(''Glove'', Some \<lparr>root = ''Root'',
           hierarchy = [''|Root'', ''|Root|Spine'', ''|Root|Spine|Arm'', ''|Root|Spine|Arm|Hand'']\<rparr>)])"
    by code_simp
  from missing_mesh_list_aborts[OF h1 h2 h3 h4] show ?thesis by simp
qed


end
